theory Spec2Isabelle
  imports Main "HOL-Library.Sublist"
begin

section \<open>Python strings\<close>

text \<open>
  A Python \<open>str\<close> is a sequence of Unicode code points, so it is modelled as a list of
  natural numbers, one per code point. This keeps what an 8-bit character type would lose:
  whitespace beyond Latin-1, and the lone surrogates U+D800..U+DFFF that a \<open>str\<close> may hold
  (\<open>sys.argv\<close> and \<open>os.environ\<close> decode undecodable bytes to them) but UTF-8 cannot encode.
  \<open>bytes\<close> are lists of numbers below 256. \<open>lit\<close> turns an ASCII literal of the source
  into its code points. Numbers from 0x110000 on are no code points; where a theorem needs
  the bytes of a string it excludes them.
\<close>

type_synonym pystr = "nat list"
type_synonym bytes = "nat list"

definition lit :: "string \<Rightarrow> pystr" where
  "lit s = map of_char s"

text \<open>\<open>str.isspace\<close> for one character: the code points CPython lists as whitespace.\<close>

definition isspace :: "nat \<Rightarrow> bool" where
  "isspace c \<longleftrightarrow>
     (9 \<le> c \<and> c \<le> 13) \<or> (28 \<le> c \<and> c \<le> 32) \<or> c = 0x85 \<or> c = 0xA0 \<or> c = 0x1680 \<or>
     (0x2000 \<le> c \<and> c \<le> 0x200A) \<or> c = 0x2028 \<or> c = 0x2029 \<or> c = 0x202F \<or>
     c = 0x205F \<or> c = 0x3000"

text \<open>\<open>s.strip()\<close>: drop the leading and the trailing whitespace.\<close>

definition strip :: "pystr \<Rightarrow> pystr" where
  "strip s = rev (dropWhile isspace (rev (dropWhile isspace s)))"

text \<open>
  \<open>s.replace(old, new)\<close>: every non-overlapping occurrence of \<open>old\<close>, found from the left,
  becomes \<open>new\<close>. With an empty \<open>old\<close> Python puts \<open>new\<close> before every character and at
  the end.
\<close>

function replace :: "pystr \<Rightarrow> pystr \<Rightarrow> pystr \<Rightarrow> pystr" where
  "replace old new s =
     (if old = [] then concat (map (\<lambda>c. new @ [c]) s) @ new
      else if s = [] then []
      else if prefix old s then new @ replace old new (drop (length old) s)
      else hd s # replace old new (tl s))"
  by pat_completeness auto
termination
  by (relation "measure (\<lambda>(old, new, s). length s)") auto

declare replace.simps [simp del]

text \<open>\<open>s.startswith(p)\<close> and \<open>s.endswith(p)\<close>.\<close>

definition startswith :: "pystr \<Rightarrow> pystr \<Rightarrow> bool" where
  "startswith s p \<longleftrightarrow> prefix p s"

definition endswith :: "pystr \<Rightarrow> pystr \<Rightarrow> bool" where
  "endswith s p \<longleftrightarrow> suffix p s"

section \<open>The parsed response document\<close>

text \<open>
  An \<open>xml.etree.ElementTree.Element\<close> as far as \<open>fetch\<close> reads it: the tag (with the
  namespace in braces), the text (\<open>None\<close> for an element without character data) and the
  child elements in document order.
\<close>

datatype element = Element (el_tag: pystr) (el_text: "pystr option") (el_children: "element list")

definition ATOM :: pystr where
  "ATOM = lit ''{http://www.w3.org/2005/Atom}''"

text \<open>
  \<open>el.findall(tag)\<close> and \<open>el.find(tag)\<close> for a path that is a single tag: the direct
  children with that tag in document order, and the first of them or \<open>None\<close>.
\<close>

definition findall :: "pystr \<Rightarrow> element \<Rightarrow> element list" where
  "findall t el = filter (\<lambda>c. el_tag c = t) (el_children el)"

definition find_elem :: "pystr \<Rightarrow> element \<Rightarrow> element option" where
  "find_elem t el = (case findall t el of [] \<Rightarrow> None | c # _ \<Rightarrow> Some c)"

section \<open>Entries\<close>

text \<open>
  The nested helper \<open>_text\<close> of \<open>fetch\<close>:
  \<^verbatim>\<open>return el.text.strip().replace('\n', ' ') if el is not None and el.text else ''\<close>.
  An absent node, a node whose text is \<open>None\<close> and a node whose text is empty are all falsy.
\<close>

definition node_text :: "element option \<Rightarrow> pystr" where
  "node_text el =
     (case el of
        None \<Rightarrow> []
      | Some e \<Rightarrow>
          (case el_text e of
             None \<Rightarrow> []
           | Some t \<Rightarrow> if t = [] then [] else replace [10] [32] (strip t)))"

text \<open>
  Lines 58 to 60 of \<open>fetch\<close>: the link of the document derived from the identifier.
\<close>

definition pdf_link :: "pystr \<Rightarrow> pystr" where
  "pdf_link id_url =
     (let pdf = replace (lit ''/abs/'') (lit ''/pdf/'') id_url
      in if pdf \<noteq> [] \<and> \<not> endswith pdf (lit ''.pdf'') then pdf @ lit ''.pdf'' else pdf)"

text \<open>
  The dictionary appended for one entry. Its keys are fixed, so it is a record; the
  field \<open>id_url\<close> is the key \<open>id\<close>. An author is the \<open>text\<close> attribute of a \<open>name\<close>
  element, which is \<open>None\<close> when that element is empty, hence the option.
\<close>

record paper =
  id_url :: pystr
  title :: pystr
  summary :: pystr
  authors :: "pystr option list"
  updated :: pystr
  pdf :: pystr

text \<open>
  The comprehension of line 57:
  \<^verbatim>\<open>[a.find(ATOM + 'name').text for a in entry.findall(ATOM + 'author')
     if a.find(ATOM + 'name') is not None]\<close>
\<close>

definition author_names :: "element \<Rightarrow> pystr option list" where
  "author_names entry =
     List.map_filter (\<lambda>a. map_option el_text (find_elem (ATOM @ lit ''name'') a))
       (findall (ATOM @ lit ''author'') entry)"

definition paper_of_entry :: "element \<Rightarrow> paper" where
  "paper_of_entry entry =
     (let i = node_text (find_elem (ATOM @ lit ''id'') entry);
          t = node_text (find_elem (ATOM @ lit ''title'') entry);
          s = node_text (find_elem (ATOM @ lit ''summary'') entry);
          u = node_text (find_elem (ATOM @ lit ''updated'') entry)
      in \<lparr>id_url = i, title = t, summary = s, authors = author_names entry,
          updated = u, pdf = pdf_link i\<rparr>)"

text \<open>The loop of lines 48 to 62 over \<open>root.findall(ATOM + 'entry')\<close>.\<close>

definition parse_papers :: "element \<Rightarrow> paper list" where
  "parse_papers root = map paper_of_entry (findall (ATOM @ lit ''entry'') root)"

section \<open>Numbers as text\<close>

text \<open>
  The decimal text of an \<open>int\<close>, as \<open>str(n)\<close>, an f-string and \<open>json\<close> write it
  (when the conversion is allowed, see \<open>format_int\<close> below).
\<close>

function str_nat :: "nat \<Rightarrow> pystr" where
  "str_nat n = (if n < 10 then [48 + n] else str_nat (n div 10) @ [48 + n mod 10])"
  by pat_completeness auto
termination
  by (relation "measure id") auto

declare str_nat.simps [simp del]

definition str_int :: "int \<Rightarrow> pystr" where
  "str_int i = (if i < 0 then 45 # str_nat (nat (- i)) else str_nat (nat i))"

definition hex_upper :: "nat \<Rightarrow> nat" where
  "hex_upper d = (if d < 10 then 48 + d else 55 + d)"

definition hex_lower :: "nat \<Rightarrow> nat" where
  "hex_lower d = (if d < 10 then 48 + d else 87 + d)"

text \<open>The number a string of decimal digits denotes.\<close>

definition decimal_value :: "pystr \<Rightarrow> nat" where
  "decimal_value s = foldl (\<lambda>a c. 10 * a + (c - 48)) 0 s"

section \<open>Exceptions\<close>

text \<open>
  An exception as the program can observe it: its class, and \<open>str(e)\<close>. The exceptions of
  the model are instances of \<open>Exception\<close>, which is what the two \<open>except\<close> clauses catch.
\<close>

datatype exn = Exn (exc_class: string) (exc_str: pystr)

text \<open>
  CPython (from 3.11 on) refuses to write an \<open>int\<close> in decimal when it has more digits
  than \<open>sys.get_int_max_str_digits()\<close> and raises \<open>ValueError\<close>. The limit is 4300
  unless the interpreter is configured otherwise, and 0 means that there is none (as in
  the versions before 3.11). \<open>format_int limit i\<close> is the conversion of \<open>i\<close> in an
  f-string, \<open>f'{i}'\<close>, under the limit \<open>limit\<close>; the sign does not count as a digit.
\<close>

definition int_str_limit_error :: "nat \<Rightarrow> exn" where
  "int_str_limit_error limit =
     Exn ''ValueError''
       (lit ''Exceeds the limit ('' @ str_nat limit
        @ lit '' digits) for integer string conversion; use sys.set_int_max_str_digits() to increase the limit'')"

definition format_int :: "nat \<Rightarrow> int \<Rightarrow> exn + pystr" where
  "format_int limit i =
     (if 0 < limit \<and> limit < length (str_nat (nat \<bar>i\<bar>)) then Inl (int_str_limit_error limit)
      else Inr (str_int i))"

section \<open>Building the URL\<close>

definition is_surrogate :: "nat \<Rightarrow> bool" where
  "is_surrogate c \<longleftrightarrow> 0xD800 \<le> c \<and> c \<le> 0xDFFF"

definition has_surrogate :: "pystr \<Rightarrow> bool" where
  "has_surrogate s \<longleftrightarrow> (\<exists>c\<in>set s. is_surrogate c)"

text \<open>The UTF-8 bytes of one code point that is not a surrogate.\<close>

definition utf8_char :: "nat \<Rightarrow> bytes" where
  "utf8_char c =
     (if c < 0x80 then [c]
      else if c < 0x800 then [0xC0 + c div 64, 0x80 + c mod 64]
      else if c < 0x10000 then [0xE0 + c div 4096, 0x80 + c div 64 mod 64, 0x80 + c mod 64]
      else [0xF0 + c div 262144, 0x80 + c div 4096 mod 64, 0x80 + c div 64 mod 64,
            0x80 + c mod 64])"

text \<open>
  The \<open>UnicodeEncodeError\<close> of the strict UTF-8 codec: it reports the first run of
  surrogates, with the character when the run has length one and with the positions of its
  first and last character otherwise.
\<close>

definition unicode_encode_error :: "pystr \<Rightarrow> exn" where
  "unicode_encode_error s =
     (let start = length (takeWhile (\<lambda>c. \<not> is_surrogate c) s);
          run = takeWhile is_surrogate (drop start s)
      in Exn ''UnicodeEncodeError''
           (case run of
              [c] \<Rightarrow>
                [39] @ lit ''utf-8' codec can't encode character ''
                @ [39, 92, 117, hex_lower (c div 4096), hex_lower (c div 256 mod 16),
                   hex_lower (c div 16 mod 16), hex_lower (c mod 16), 39]
                @ lit '' in position '' @ str_nat start @ lit '': surrogates not allowed''
            | _ \<Rightarrow>
                [39] @ lit ''utf-8' codec can't encode characters in position ''
                @ str_nat start @ [45] @ str_nat (start + length run - 1)
                @ lit '': surrogates not allowed''))"

text \<open>\<open>s.encode('utf-8', 'strict')\<close>.\<close>

definition encode_utf8 :: "pystr \<Rightarrow> exn + bytes" where
  "encode_utf8 s =
     (if has_surrogate s then Inl (unicode_encode_error s)
      else Inr (concat (map utf8_char s)))"

text \<open>
  \<open>urllib.parse.quote(s)\<close> with its defaults: the string is encoded as UTF-8 (strictly),
  and every byte that is not a letter, a digit, one of \<open>_.-~\<close> or the safe \<open>/\<close> becomes
  \<open>%XX\<close> with upper-case hex digits.
\<close>

definition always_safe :: "nat \<Rightarrow> bool" where
  "always_safe b \<longleftrightarrow>
     (65 \<le> b \<and> b \<le> 90) \<or> (97 \<le> b \<and> b \<le> 122) \<or> (48 \<le> b \<and> b \<le> 57) \<or>
     b = 95 \<or> b = 46 \<or> b = 45 \<or> b = 126"

definition quote_byte :: "nat \<Rightarrow> pystr" where
  "quote_byte b =
     (if always_safe b \<or> b = 47 then [b] else [37, hex_upper (b div 16), hex_upper (b mod 16)])"

definition quote :: "pystr \<Rightarrow> exn + pystr" where
  "quote s = (case encode_utf8 s of Inl e \<Rightarrow> Inl e | Inr bs \<Rightarrow> Inr (concat (map quote_byte bs)))"

text \<open>
  Lines 36 to 41 of \<open>fetch\<close>, under the interpreter's limit on the digits of an \<open>int\<close>:
  \<open>quote\<close> runs first (line 36), then the f-string is put together (lines 37 to 41).
\<close>

definition build_url :: "nat \<Rightarrow> pystr \<Rightarrow> int \<Rightarrow> exn + pystr" where
  "build_url limit query max_results =
     (case quote query of
        Inl e \<Rightarrow> Inl e
      | Inr encoded \<Rightarrow>
          (case format_int limit max_results of
             Inl e \<Rightarrow> Inl e
           | Inr count \<Rightarrow>
               Inr (lit ''https://export.arxiv.org/api/query?''
                    @ lit ''search_query='' @ encoded @ lit ''&start=0&max_results=''
                    @ count
                    @ lit ''&sortBy=lastUpdatedDate&sortOrder=descending'')))"

section \<open>JSON text\<close>

text \<open>
  The values \<open>json.dump\<close> is given here: \<open>None\<close>, integers, strings, lists and
  dictionaries with string keys in insertion order.
\<close>

datatype json = JNull | JInt int | JStr pystr | JList "json list" | JDict "(pystr \<times> json) list"

text \<open>
  A string literal as \<open>json\<close> writes it with \<open>ensure_ascii=False\<close>: only the quote, the
  backslash and the control characters below U+0020 are escaped.
\<close>

definition escape_char :: "nat \<Rightarrow> pystr" where
  "escape_char c =
     (if c = 34 then [92, 34]
      else if c = 92 then [92, 92]
      else if c = 10 then [92, 110]
      else if c = 13 then [92, 114]
      else if c = 9 then [92, 116]
      else if c = 8 then [92, 98]
      else if c = 12 then [92, 102]
      else if c < 32 then [92, 117, 48, 48, hex_lower (c div 16), hex_lower (c mod 16)]
      else [c])"

definition encode_basestring :: "pystr \<Rightarrow> pystr" where
  "encode_basestring s = [34] @ concat (map escape_char s) @ [34]"

text \<open>
  The text written with \<open>indent=2\<close>, at a nesting level: items are separated by a comma
  and a new line indented two spaces per level, keys and values by a colon and a space,
  and empty containers are \<open>[]\<close> and \<open>{}\<close>.
\<close>

definition newline_indent :: "nat \<Rightarrow> pystr" where
  "newline_indent level = 10 # replicate (2 * level) 32"

fun dumps :: "nat \<Rightarrow> json \<Rightarrow> pystr"
  and dumps_items :: "nat \<Rightarrow> json list \<Rightarrow> pystr"
  and dumps_members :: "nat \<Rightarrow> (pystr \<times> json) list \<Rightarrow> pystr" where
  "dumps l JNull = lit ''null''"
| "dumps l (JInt i) = str_int i"
| "dumps l (JStr s) = encode_basestring s"
| "dumps l (JList []) = lit ''[]''"
| "dumps l (JList (v # vs)) =
     [91] @ newline_indent (Suc l) @ dumps (Suc l) v @ dumps_items (Suc l) vs
     @ newline_indent l @ [93]"
| "dumps l (JDict []) = lit ''{}''"
| "dumps l (JDict ((k, v) # kvs)) =
     [123] @ newline_indent (Suc l) @ encode_basestring k @ [58, 32] @ dumps (Suc l) v
     @ dumps_members (Suc l) kvs @ newline_indent l @ [125]"
| "dumps_items l [] = []"
| "dumps_items l (v # vs) = [44] @ newline_indent l @ dumps l v @ dumps_items l vs"
| "dumps_members l [] = []"
| "dumps_members l ((k, v) # kvs) =
     [44] @ newline_indent l @ encode_basestring k @ [58, 32] @ dumps l v @ dumps_members l kvs"

text \<open>One entry as the dictionary of line 61, keys in the order written there.\<close>

definition author_json :: "pystr option \<Rightarrow> json" where
  "author_json a = (case a of None \<Rightarrow> JNull | Some n \<Rightarrow> JStr n)"

definition paper_json :: "paper \<Rightarrow> json" where
  "paper_json p =
     JDict [(lit ''id'', JStr (id_url p)), (lit ''title'', JStr (title p)),
            (lit ''summary'', JStr (summary p)),
            (lit ''authors'', JList (map author_json (authors p))),
            (lit ''updated'', JStr (updated p)), (lit ''pdf'', JStr (pdf p))]"

section \<open>The host and the state of a run\<close>

text \<open>
  What the program asks of its surroundings is a parameter of the model. A \<open>host\<close> fixes
  \<open>sys.argv\<close>; what \<open>argparse\<close> makes of a command line for the three options of lines
  74 to 76: either it ends the process (\<open>SystemExit\<close> with a status, 2 for a command
  line it rejects and 0 after \<open>-h\<close>, and the lines it printed on the standard output
  before), or it delivers the values given for \<open>--query\<close>, \<open>--max\<close> (converted by
  \<open>type=int\<close>) and \<open>--out\<close>, each \<open>None\<close> when the option is not given; the environment
  variables; the builtin \<open>int\<close> on a string (\<open>Inl\<close> is its \<open>ValueError\<close>); the
  interpreter's limit on the digits of an \<open>int\<close> written in decimal; whether the two
  ways to build an SSL context work; the answer of the network to a request (\<open>urlopen\<close>
  with the fixed header and timeout, then \<open>read\<close>); the XML parser; the exceptions with
  which \<open>os.makedirs\<close>, \<open>open(path, 'w')\<close> and writing to an opened file fail (if they
  do); the exception of the codec for a text it cannot encode as the file sees it; the
  exception with which \<open>print\<close> fails on a line (if it does: the standard output may be
  closed, or unable to encode the line); and the successive readings of
  \<open>int(time.time())\<close>. Nothing is assumed about these functions.

  Two numbers are written in decimal without a look at the limit on digits: the readings
  of the clock, which are integer parts of floats, and the length of a list. Neither can
  have the 640 digits below which the limit cannot be set.
\<close>

datatype ssl_context = CertifiBundle | PlatformDefault

record host =
  sys_argv :: "pystr list"
  argparse :: "pystr list \<Rightarrow> (int \<times> pystr list) + (pystr option \<times> int option \<times> pystr option)"
  environ :: "pystr \<rightharpoonup> pystr"
  int_of_str :: "pystr \<Rightarrow> exn + int"
  max_str_digits :: nat
  certifi_context :: bool
  default_context :: bool
  urlopen :: "pystr \<Rightarrow> ssl_context option \<Rightarrow> exn + bytes"
  fromstring :: "bytes \<Rightarrow> exn + element"
  makedirs_error :: "pystr \<rightharpoonup> exn"
  open_error :: "pystr \<rightharpoonup> exn"
  write_error :: "pystr \<rightharpoonup> exn"
  encode_error :: "pystr \<Rightarrow> exn"
  print_error :: "pystr \<rightharpoonup> exn"
  clock :: "nat \<Rightarrow> int"

text \<open>
  The state a run changes: the files (a file is complete, or what an interrupted write
  of the given text left), the directories created, the number of clock readings taken
  and the lines printed on the standard output. A file is known by the text of its
  path: two texts that lead to one file (as \<open>docs/../arxiv_data.json\<close> and
  \<open>arxiv_data.json\<close> do) are two files here, so what is said below of the files at two
  paths is said of paths that lead to different files.
\<close>

datatype file_content = Complete pystr | Partial pystr

record state =
  files :: "pystr \<rightharpoonup> file_content"
  created :: "pystr list"
  ticks :: nat
  stdout :: "pystr list"

text \<open>
  \<open>print\<close> of one line: it raises, or the line is on the standard output. What a
  failing \<open>print\<close> had written of its line before is not kept.
\<close>

definition print :: "host \<Rightarrow> state \<Rightarrow> pystr \<Rightarrow> exn option \<times> state" where
  "print h s line =
     (case print_error h line of
        Some e \<Rightarrow> (Some e, s)
      | None \<Rightarrow> (None, s\<lparr>stdout := stdout s @ [line]\<rparr>))"

text \<open>\<open>int(time.time())\<close>: the next reading of the clock.\<close>

definition time_now :: "host \<Rightarrow> state \<Rightarrow> int \<times> state" where
  "time_now h s = (clock h (ticks s), s\<lparr>ticks := Suc (ticks s)\<rparr>)"

text \<open>\<open>os.makedirs(d, exist_ok=True)\<close>.\<close>

definition makedirs :: "host \<Rightarrow> state \<Rightarrow> pystr \<Rightarrow> exn option \<times> state" where
  "makedirs h s d =
     (case makedirs_error h d of
        Some e \<Rightarrow> (Some e, s)
      | None \<Rightarrow> (None, s\<lparr>created := created s @ [d]\<rparr>))"

text \<open>
  \<^verbatim>\<open>with open(path, 'w', encoding='utf-8') as f: json.dump(obj, f, ensure_ascii=False, indent=2)\<close>.
  Opening may fail and leaves the file as it was; once opened the file is truncated, and a
  text with a lone surrogate, or a failing write, leaves it partial.
\<close>

definition dump_to_file :: "host \<Rightarrow> state \<Rightarrow> pystr \<Rightarrow> json \<Rightarrow> exn option \<times> state" where
  "dump_to_file h s path obj =
     (case open_error h path of
        Some e \<Rightarrow> (Some e, s)
      | None \<Rightarrow>
          (let t = dumps 0 obj
           in if has_surrogate t
              then (Some (encode_error h t), s\<lparr>files := (files s)(path \<mapsto> Partial t)\<rparr>)
              else (case write_error h path of
                      Some e \<Rightarrow> (Some e, s\<lparr>files := (files s)(path \<mapsto> Partial t)\<rparr>)
                    | None \<Rightarrow> (None, s\<lparr>files := (files s)(path \<mapsto> Complete t)\<rparr>))))"

section \<open>The program\<close>

definition build_ssl_context :: "host \<Rightarrow> ssl_context option" where
  "build_ssl_context h =
     (if certifi_context h then Some CertifiBundle
      else if default_context h then Some PlatformDefault
      else None)"

definition fetch :: "host \<Rightarrow> pystr \<Rightarrow> int \<Rightarrow> exn + paper list" where
  "fetch h query max_results =
     (case build_url (max_str_digits h) query max_results of
        Inl e \<Rightarrow> Inl e
      | Inr url \<Rightarrow>
          (case urlopen h url (build_ssl_context h) of
             Inl e \<Rightarrow> Inl e
           | Inr raw \<Rightarrow>
               (case fromstring h raw of
                  Inl e \<Rightarrow> Inl e
                | Inr root \<Rightarrow> Inr (parse_papers root))))"

definition result_set :: "pystr \<Rightarrow> int \<Rightarrow> paper list \<Rightarrow> json" where
  "result_set query fetched_at papers =
     JDict [(lit ''query'', JStr query), (lit ''fetched_at'', JInt fetched_at),
            (lit ''papers'', JList (map paper_json papers))]"

definition write_output :: "host \<Rightarrow> state \<Rightarrow> pystr \<Rightarrow> pystr \<Rightarrow> paper list \<Rightarrow> exn option \<times> state" where
  "write_output h s path query papers =
     (let (t, s1) = time_now h s
      in dump_to_file h s1 path (result_set query t papers))"

text \<open>
  The namespace \<open>parse_args\<close> returns, and the three defaults of the parser (lines 74 to
  76) for the options that are not given on the command line.
\<close>

record args =
  arg_query :: "pystr option"
  arg_max :: int
  arg_out :: pystr

definition parse_args :: "pystr option \<Rightarrow> int option \<Rightarrow> pystr option \<Rightarrow> args" where
  "parse_args q m out =
     \<lparr>arg_query = q,
      arg_max = (case m of None \<Rightarrow> 20 | Some n \<Rightarrow> n),
      arg_out = (case out of None \<Rightarrow> lit ''docs/arxiv_data.json'' | Some p \<Rightarrow> p)\<rparr>"

text \<open>
  Lines 72 to 77: the command line is \<open>argv\<close>, or \<open>sys.argv[1:]\<close> when \<open>argv\<close> is \<open>None\<close>;
  \<open>p.parse_args(argv)\<close> ends the process or returns the namespace.
\<close>

definition parse_command_line :: "host \<Rightarrow> pystr list option \<Rightarrow> (int \<times> pystr list) + args" where
  "parse_command_line h argv =
     (case argparse h (case argv of None \<Rightarrow> drop 1 (sys_argv h) | Some l \<Rightarrow> l) of
        Inl exit \<Rightarrow> Inl exit
      | Inr (q, m, out) \<Rightarrow> Inr (parse_args q m out))"

text \<open>
  Line 81, \<^verbatim>\<open>args.query or os.environ.get('ARXIV_QUERY') or 'all:machine learning'\<close>:
  \<open>or\<close> passes over \<open>None\<close> and over the empty string.
\<close>

definition resolve_query :: "host \<Rightarrow> args \<Rightarrow> pystr" where
  "resolve_query h a =
     (let from_env =
            (case environ h (lit ''ARXIV_QUERY'') of
               None \<Rightarrow> lit ''all:machine learning''
             | Some v \<Rightarrow> if v \<noteq> [] then v else lit ''all:machine learning'')
      in case arg_query a of
           None \<Rightarrow> from_env
         | Some q \<Rightarrow> if q \<noteq> [] then q else from_env)"

text \<open>Line 82, \<^verbatim>\<open>int(os.environ.get('MAX_RESULTS', args.max))\<close>.\<close>

definition resolve_max_results :: "host \<Rightarrow> args \<Rightarrow> exn + int" where
  "resolve_max_results h a =
     (case environ h (lit ''MAX_RESULTS'') of
        None \<Rightarrow> Inr (arg_max a)
      | Some v \<Rightarrow> int_of_str h v)"

text \<open>\<open>os.path.dirname\<close> of \<open>posixpath\<close>.\<close>

definition dirname :: "pystr \<Rightarrow> pystr" where
  "dirname p =
     (let head = rev (dropWhile (\<lambda>c. c \<noteq> 47) (rev p))
      in if head \<noteq> [] \<and> head \<noteq> replicate (length head) 47
         then rev (dropWhile (\<lambda>c. c = 47) (rev head))
         else head)"

text \<open>
  The four lines \<open>main\<close> prints (lines 84, 100, 102 and 106). The first takes the count
  as the f-string has converted it.
\<close>

definition fetching_line :: "pystr \<Rightarrow> pystr \<Rightarrow> pystr" where
  "fetching_line query count =
     lit ''Fetching arXiv for query: '' @ query @ lit '' (max='' @ count @ lit '')''"

definition wrote_line :: "pystr \<Rightarrow> nat \<Rightarrow> pystr" where
  "wrote_line out_path n =
     lit ''Wrote '' @ out_path @ lit '' with '' @ str_int (int n) @ lit '' papers''"

definition error_line :: "exn \<Rightarrow> pystr" where
  "error_line e = lit ''Error fetching arXiv: '' @ exc_str e"

definition fallback_line :: "pystr \<Rightarrow> pystr" where
  "fallback_line out_path = lit ''Wrote fallback '' @ out_path"

text \<open>
  The body of the \<open>try\<close> of \<open>main\<close>, lines 86 to 100. Its result is the exception that
  leaves the body, if any. The inner \<open>try\<close> discards the exception of the second write
  and keeps what the write did. The \<open>print\<close> of line 100 is inside the \<open>try\<close>, so its
  exception leaves the body like any other.
\<close>

definition try_body :: "host \<Rightarrow> args \<Rightarrow> pystr \<Rightarrow> int \<Rightarrow> state \<Rightarrow> exn option \<times> state" where
  "try_body h a query max_results s =
     (case fetch h query max_results of
        Inl e \<Rightarrow> (Some e, s)
      | Inr papers \<Rightarrow>
          (let out_path = arg_out a;
               out_dir = dirname out_path
           in case (if out_dir \<noteq> [] then makedirs h s out_dir else (None, s)) of
                (Some e, s1) \<Rightarrow> (Some e, s1)
              | (None, s1) \<Rightarrow>
                  (case write_output h s1 out_path query papers of
                     (Some e, s2) \<Rightarrow> (Some e, s2)
                   | (None, s2) \<Rightarrow>
                       (let s3 = (if startswith out_path (lit ''docs/'')
                                  then snd (write_output h s2 (lit ''arxiv_data.json'') query papers)
                                  else s2)
                        in print h s3 (wrote_line out_path (length papers))))))"

text \<open>
  How a call of \<open>main\<close> ends: it returns, or an exception leaves it (the process then ends
  with status 1), or \<open>argparse\<close> ends the process with \<open>SystemExit\<close> and a status. The
  program itself never calls \<open>sys.exit\<close>.
\<close>

datatype outcome = Returned state | Raised exn state | Exited int state

fun returned :: "outcome \<Rightarrow> bool" where
  "returned (Returned s) = True"
| "returned (Raised e s) = False"
| "returned (Exited c s) = False"

fun final_state :: "outcome \<Rightarrow> state" where
  "final_state (Returned s) = s"
| "final_state (Raised e s) = s"
| "final_state (Exited c s) = s"

definition fallback_result :: "pystr \<Rightarrow> int \<Rightarrow> pystr \<Rightarrow> json" where
  "fallback_result query fetched_at err =
     JDict [(lit ''query'', JStr query), (lit ''fetched_at'', JInt fetched_at),
            (lit ''error'', JStr err), (lit ''papers'', JList [])]"

text \<open>
  The handler, lines 101 to 106. Nothing catches what is raised here: a failing \<open>print\<close>
  on line 102 or 106, or a failing \<open>open\<close> or write on lines 104 and 105, leaves \<open>main\<close>.
\<close>

definition handler :: "host \<Rightarrow> args \<Rightarrow> pystr \<Rightarrow> exn \<Rightarrow> state \<Rightarrow> outcome" where
  "handler h a query e s =
     (case print h s (error_line e) of
        (Some e', s1) \<Rightarrow> Raised e' s1
      | (None, s1) \<Rightarrow>
          (let (t, s2) = time_now h s1
           in case dump_to_file h s2 (arg_out a) (fallback_result query t (exc_str e)) of
                (Some e', s3) \<Rightarrow> Raised e' s3
              | (None, s3) \<Rightarrow>
                  (case print h s3 (fallback_line (arg_out a)) of
                     (Some e', s4) \<Rightarrow> Raised e' s4
                   | (None, s4) \<Rightarrow> Returned s4)))"

text \<open>
  \<open>main\<close> from line 79 on, with the namespace of line 77. Lines 81 to 84 are outside the
  \<open>try\<close>: the \<open>ValueError\<close> of \<open>int\<close> on line 82, and on line 84 that of the f-string for a
  count with too many digits and the exception of \<open>print\<close>, leave \<open>main\<close>.
\<close>

definition main_body :: "host \<Rightarrow> args \<Rightarrow> state \<Rightarrow> outcome" where
  "main_body h a s =
     (let query = resolve_query h a
      in case resolve_max_results h a of
           Inl e \<Rightarrow> Raised e s
         | Inr max_results \<Rightarrow>
             (case format_int (max_str_digits h) max_results of
                Inl e \<Rightarrow> Raised e s
              | Inr count \<Rightarrow>
                  (case print h s (fetching_line query count) of
                     (Some e, s1) \<Rightarrow> Raised e s1
                   | (None, s1) \<Rightarrow>
                       (case try_body h a query max_results s1 of
                          (None, s2) \<Rightarrow> Returned s2
                        | (Some e, s2) \<Rightarrow> handler h a query e s2))))"

text \<open>
  \<open>main(argv)\<close>, lines 71 to 106. When \<open>argparse\<close> ends the process, what it printed on
  the standard output is there and nothing else has happened.
\<close>

definition main :: "host \<Rightarrow> pystr list option \<Rightarrow> state \<Rightarrow> outcome" where
  "main h argv s =
     (case parse_command_line h argv of
        Inl (status, printed) \<Rightarrow> Exited status (s\<lparr>stdout := stdout s @ printed\<rparr>)
      | Inr a \<Rightarrow> main_body h a s)"

section \<open>Reading the output back\<close>

text \<open>
  The reader of the round trip is \<open>json.loads\<close> applied to the text of the file. The model
  follows the decoder of the standard library: \<open>scanstring\<close> for a string after its opening
  quote (strict: no raw control character), the number pattern for an integer, and the
  array and object loops with their optional whitespace. The result \<open>None\<close> stands for a
  \<open>JSONDecodeError\<close> or for a text outside the part modelled: floats, \<open>true\<close>, \<open>false\<close>,
  \<open>NaN\<close> and the infinities, and \<open>\u\<close> escapes that name a high surrogate (which the library
  would pair with the next escape). The recursion carries fuel, which \<open>json_loads\<close> sets
  above the length of the text. A later duplicate of a key replaces the value of the
  earlier one, as in a \<open>dict\<close>.
\<close>

definition is_ws :: "nat \<Rightarrow> bool" where
  "is_ws c \<longleftrightarrow> c = 32 \<or> c = 9 \<or> c = 10 \<or> c = 13"

definition skip_ws :: "pystr \<Rightarrow> pystr" where
  "skip_ws s = dropWhile is_ws s"





definition is_digit :: "nat \<Rightarrow> bool" where
  "is_digit c \<longleftrightarrow> 48 \<le> c \<and> c \<le> 57"







text \<open>What may follow an integer: anything but a digit, a point or an exponent.\<close>

definition ends_value :: "pystr \<Rightarrow> bool" where
  "ends_value rest \<longleftrightarrow>
     (case rest of [] \<Rightarrow> True | c # _ \<Rightarrow> \<not> is_digit c \<and> c \<noteq> 46 \<and> c \<noteq> 101 \<and> c \<noteq> 69)"








section \<open>Texts that UTF-8 can encode\<close>

text \<open>
  Whether a string of an entry, or a text of a document, holds a lone surrogate. An XML
  parser never delivers one, since no XML character is a surrogate.
\<close>

definition paper_has_surrogate :: "paper \<Rightarrow> bool" where
  "paper_has_surrogate p \<longleftrightarrow>
     has_surrogate (id_url p) \<or> has_surrogate (title p) \<or> has_surrogate (summary p) \<or>
     (\<exists>a\<in>set (authors p). case a of None \<Rightarrow> False | Some n \<Rightarrow> has_surrogate n) \<or>
     has_surrogate (updated p) \<or> has_surrogate (pdf p)"

fun el_has_surrogate :: "element \<Rightarrow> bool" where
  "el_has_surrogate (Element t x cs) \<longleftrightarrow>
     (case x of None \<Rightarrow> False | Some s \<Rightarrow> has_surrogate s) \<or> (\<exists>c\<in>set cs. el_has_surrogate c)"

section \<open>Example hosts\<close>

text \<open>
  Concrete hosts for the example runs below. They answer the questions those runs ask;
  \<open>int_decimal\<close> is \<open>int\<close> on the strings the examples pass to it: a string of ASCII digits
  is its decimal value, and a string of letters is rejected with the \<open>ValueError\<close> shown.
  \<open>scan_options\<close> is \<open>argparse\<close> on the command lines of the examples: the three options
  by their full names, each followed by its value. It ends the process with status 2,
  as \<open>argparse\<close> does, on an unknown option, on an option without a value and on a count
  that \<open>int\<close> rejects; abbreviated options, \<open>--option=value\<close> and \<open>-h\<close> are beyond it.
  The standard output of the example host is a UTF-8 stream: \<open>print\<close> fails on a line
  with a lone surrogate and on no other. The limit on digits is the default 4300.
  The network of the example host answers every request with some bytes, which its
  parser reads as the feed \<open>example_feed\<close>: two entries, the first with an author that
  has a name and one that has none, the second empty.
\<close>

definition int_decimal :: "pystr \<Rightarrow> exn + int" where
  "int_decimal s =
     (if s \<noteq> [] \<and> (\<forall>c\<in>set s. 48 \<le> c \<and> c \<le> 57) then Inr (int (decimal_value s))
      else Inl (Exn ''ValueError''
                  (lit ''invalid literal for int() with base 10: '' @ [39] @ s @ [39])))"

fun scan_options ::
  "pystr list \<Rightarrow> pystr option \<times> int option \<times> pystr option \<Rightarrow>
     (int \<times> pystr list) + (pystr option \<times> int option \<times> pystr option)" where
  "scan_options [] given = Inr given"
| "scan_options [x] given = Inl (2, [])"
| "scan_options (x # v # rest) (q, m, out) =
     (if x = lit ''--query'' then scan_options rest (Some v, m, out)
      else if x = lit ''--max''
      then (case int_decimal v of
              Inl e \<Rightarrow> Inl (2, [])
            | Inr n \<Rightarrow> scan_options rest (q, Some n, out))
      else if x = lit ''--out'' then scan_options rest (q, m, Some v)
      else Inl (2, []))"

definition utf8_stream_error :: "pystr \<rightharpoonup> exn" where
  "utf8_stream_error line = (if has_surrogate line then Some (unicode_encode_error line) else None)"

definition example_feed :: element where
  "example_feed =
     Element (ATOM @ lit ''feed'') (Some [10, 32, 32])
       [Element (ATOM @ lit ''title'') (Some (lit ''arXiv Query'')) [],
        Element (ATOM @ lit ''entry'') (Some [10, 32, 32, 32, 32])
          [Element (ATOM @ lit ''id'') (Some (lit ''http://arxiv.org/abs/2401.00001v1'')) [],
           Element (ATOM @ lit ''updated'') (Some (lit ''2024-01-01T00:00:00Z'')) [],
           Element (ATOM @ lit ''title'') (Some (lit ''Deep'' @ [10] @ lit ''  Nets'')) [],
           Element (ATOM @ lit ''summary'') (Some (lit ''  We study nets.'' @ [10])) [],
           Element (ATOM @ lit ''author'') None
             [Element (ATOM @ lit ''name'') (Some (lit ''Ada Lovelace'')) []],
           Element (ATOM @ lit ''author'') None []],
        Element (ATOM @ lit ''entry'') None []]"

definition example_host :: host where
  "example_host =
     \<lparr>sys_argv = [lit ''scripts/fetch_arxiv.py''],
      argparse = (\<lambda>argv. scan_options argv (None, None, None)),
      environ = Map.empty,
      int_of_str = int_decimal,
      max_str_digits = 4300,
      certifi_context = False,
      default_context = True,
      urlopen = (\<lambda>url ctx. Inr (lit ''<feed>...</feed>'')),
      fromstring = (\<lambda>raw. Inr example_feed),
      makedirs_error = Map.empty,
      open_error = Map.empty,
      write_error = Map.empty,
      encode_error = unicode_encode_error,
      print_error = utf8_stream_error,
      clock = (\<lambda>n. 1700000000 + int n)\<rparr>"

definition initial :: state where
  "initial = \<lparr>files = Map.empty, created = [], ticks = 0, stdout = []\<rparr>"

text \<open>
  The namespace of the empty command line, and three variations of the example host: the
  network is down; the network is down and the directory \<open>docs\<close> does not exist, so that
  opening the default destination fails; \<open>MAX_RESULTS\<close> is set to \<open>abc\<close>.
\<close>

definition default_args :: args where
  "default_args = parse_args None None None"

definition offline_host :: host where
  "offline_host =
     example_host\<lparr>urlopen := (\<lambda>url ctx. Inl (Exn ''URLError''
        (lit ''<urlopen error [Errno -3] Temporary failure in name resolution>'')))\<rparr>"

definition no_docs_host :: host where
  "no_docs_host =
     offline_host\<lparr>open_error := [lit ''docs/arxiv_data.json'' \<mapsto>
        Exn ''FileNotFoundError'' (lit ''[Errno 2] No such file or directory: '' @ [39]
                                   @ lit ''docs/arxiv_data.json'' @ [39])]\<rparr>"


section \<open>Facts about the string operations\<close>

lemma replace_nonempty:
  "old \<noteq> [] \<Longrightarrow> replace old new s =
     (if s = [] then []
      else if prefix old s then new @ replace old new (drop (length old) s)
      else hd s # replace old new (tl s))"
  by (subst replace.simps) simp

lemma replace_Nil [simp]: "old \<noteq> [] \<Longrightarrow> replace old new [] = []"
  by (simp add: replace_nonempty)

lemma replace_char: "replace [a] [b] s = map (\<lambda>c. if c = a then b else c) s"
proof (induction s)
  case Nil
  show ?case by simp
next
  case (Cons x xs)
  have "replace [a] [b] (x # xs) = (if x = a then b # replace [a] [b] xs else x # replace [a] [b] xs)"
    by (subst replace_nonempty) simp_all
  with Cons.IH show ?case by simp
qed

lemma length_replace_same:
  "old \<noteq> [] \<Longrightarrow> length new = length old \<Longrightarrow> length (replace old new s) = length s"
proof (induction "length s" arbitrary: s rule: less_induct)
  case less
  show ?case
  proof (cases "s = []")
    case True
    with less.prems show ?thesis by simp
  next
    case False
    show ?thesis
    proof (cases "prefix old s")
      case True
      then have le: "length old \<le> length s" by (rule prefix_length_le)
      from less.prems have "0 < length old" by simp
      with le False have "length (drop (length old) s) < length s" by simp
      then have "length (replace old new (drop (length old) s)) = length (drop (length old) s)"
        using less.hyps less.prems by blast
      with True False le less.prems show ?thesis
        by (subst replace_nonempty) simp_all
    next
      case np: False
      from False have "length (tl s) < length s" by (cases s) simp_all
      then have "length (replace old new (tl s)) = length (tl s)"
        using less.hyps less.prems by blast
      with np False less.prems show ?thesis
        by (subst replace_nonempty) (cases s; simp)+
    qed
  qed
qed

lemma rev_drop_take: "xs = rev (dropWhile P (rev xs)) @ rev (takeWhile P (rev xs))"
  by (metis rev_append rev_rev_ident takeWhile_dropWhile_id)

lemma strip_decomp:
  "\<exists>pre post. s = pre @ strip s @ post \<and> (\<forall>c\<in>set pre. isspace c) \<and> (\<forall>c\<in>set post. isspace c)"
proof -
  define t where "t = dropWhile isspace s"
  have s: "s = takeWhile isspace s @ t"
    by (simp add: t_def)
  have t: "t = strip s @ rev (takeWhile isspace (rev t))"
    unfolding strip_def t_def by (rule rev_drop_take)
  have pre: "\<forall>c\<in>set (takeWhile isspace s). isspace c"
    by (auto dest: set_takeWhileD)
  have post: "\<forall>c\<in>set (rev (takeWhile isspace (rev t))). isspace c"
    by (auto dest: set_takeWhileD)
  from s t have "s = takeWhile isspace s @ strip s @ rev (takeWhile isspace (rev t))"
    by simp
  with pre post show ?thesis by blast
qed

lemma strip_last: "strip s \<noteq> [] \<Longrightarrow> \<not> isspace (last (strip s))"
  by (simp add: strip_def last_rev hd_dropWhile)

lemma strip_hd: "strip s \<noteq> [] \<Longrightarrow> \<not> isspace (hd (strip s))"
proof -
  assume ne: "strip s \<noteq> []"
  define t where "t = dropWhile isspace s"
  have t: "t = strip s @ rev (takeWhile isspace (rev t))"
    unfolding strip_def t_def by (rule rev_drop_take)
  with ne have "t \<noteq> []" by auto
  then have "\<not> isspace (hd t)" unfolding t_def by (rule hd_dropWhile)
  moreover from t ne have "hd t = hd (strip s)" by (metis hd_append2)
  ultimately show ?thesis by simp
qed

lemma replace_absent:
  "old \<noteq> [] \<Longrightarrow> last old \<notin> set s \<Longrightarrow> replace old new s = s"
proof (induction s)
  case Nil
  then show ?case by simp
next
  case (Cons x xs)
  have "\<not> prefix old (x # xs)"
  proof
    assume "prefix old (x # xs)"
    then have "set old \<subseteq> set (x # xs)" by (rule set_mono_prefix)
    moreover from Cons.prems have "last old \<in> set old" by simp
    ultimately have "last old \<in> set (x # xs)" by blast
    with Cons.prems show False by simp
  qed
  moreover from Cons have "replace old new xs = xs" by simp
  ultimately show ?case using Cons.prems
    by (subst replace_nonempty) simp_all
qed

lemma replace_keeps_suffix:
  "old \<noteq> [] \<Longrightarrow> last old \<notin> set suf \<Longrightarrow> suffix suf s \<Longrightarrow> suffix suf (replace old new s)"
proof (induction "length s" arbitrary: s rule: less_induct)
  case less
  show ?case
  proof (cases "s = []")
    case True
    with less.prems show ?thesis by simp
  next
    case False
    show ?thesis
    proof (cases "prefix old s")
      case True
      then obtain r where s: "s = old @ r" by (auto simp: prefix_def)
      have "suffix suf r"
      proof (rule ccontr)
        assume ns: "\<not> suffix suf r"
        from less.prems(3) s obtain p where p: "old @ r = p @ suf" by (auto simp: suffix_def)
        then consider (a) u where "old = p @ u" "suf = u @ r" | (b) u where "old @ u = p" "r = u @ suf"
          by (auto simp: append_eq_append_conv2)
        then show False
        proof cases
          case a
          with ns have "u \<noteq> []" by (auto simp: suffix_def)
          with a have "last old = last u" by simp
          with \<open>u \<noteq> []\<close> a have "last old \<in> set suf" by simp
          with less.prems show False by simp
        next
          case b
          with ns show False by (auto simp: suffix_def)
        qed
      qed
      moreover from s less.prems have "length r < length s" by simp
      ultimately have "suffix suf (replace old new r)"
        using less.hyps less.prems by blast
      then have "suffix suf (new @ replace old new r)" by (rule suffix_appendI)
      moreover from True False less.prems s have "replace old new s = new @ replace old new r"
        by (subst replace_nonempty) simp_all
      ultimately show ?thesis by simp
    next
      case np: False
      from False obtain x xs where s: "s = x # xs" by (cases s) auto
      from np False less.prems s have r: "replace old new s = x # replace old new xs"
        by (subst replace_nonempty) simp_all
      from less.prems(3) s consider "suf = x # xs" | "suffix suf xs"
        by (auto simp: suffix_Cons)
      then show ?thesis
      proof cases
        case 1
        with less.prems s have "replace old new s = s" by (simp add: replace_absent)
        with 1 s show ?thesis by simp
      next
        case 2
        with s less.hyps less.prems have "suffix suf (replace old new xs)" by simp
        with r show ?thesis by (simp add: suffix_Cons)
      qed
    qed
  qed
qed

lemma replace_unchanged:
  assumes "old \<noteq> []" and "\<not> sublist old s"
  shows "replace old new s = s"
  using assms(2)
proof (induction s)
  case Nil
  from assms(1) show ?case by simp
next
  case (Cons x xs)
  from Cons.prems have np: "\<not> prefix old (x # xs)"
    using prefix_imp_sublist by blast
  from Cons.prems have "\<not> sublist old xs"
    by (simp add: sublist_Cons_right)
  then have "replace old new xs = xs" by (rule Cons.IH)
  with np assms(1) show ?case
    by (simp add: replace_nonempty)
qed

lemma prefix_within:
  assumes "prefix xs (ys @ zs)" and "length xs \<le> length ys"
  shows "prefix xs ys"
proof -
  from assms(1) have "prefix xs ys \<or> (\<exists>us. xs = ys @ us \<and> prefix us zs)"
    by (simp add: prefix_append)
  then show ?thesis
  proof
    assume "prefix xs ys"
    then show ?thesis .
  next
    assume "\<exists>us. xs = ys @ us \<and> prefix us zs"
    then obtain us where "xs = ys @ us" by blast
    with assms(2) show ?thesis by simp
  qed
qed

lemma replace_first:
  assumes "old \<noteq> []" and "\<not> sublist old (p @ butlast old)"
  shows "replace old new (p @ old @ t) = p @ new @ replace old new t"
  using assms(2)
proof (induction p)
  case Nil
  from assms(1) show ?case
    by (simp add: replace_nonempty [of old new "old @ t"])
next
  case (Cons x p)
  have np: "\<not> prefix old (x # p @ old @ t)"
  proof
    assume a: "prefix old (x # p @ old @ t)"
    from assms(1) have "old = butlast old @ [last old]" by simp
    then have "x # p @ old @ t = (x # p @ butlast old) @ ([last old] @ t)"
      by (metis append.assoc append_Cons)
    with a have "prefix old ((x # p @ butlast old) @ ([last old] @ t))" by simp
    moreover from assms(1) have "length old \<le> length (x # p @ butlast old)" by simp
    ultimately have "prefix old (x # p @ butlast old)" by (rule prefix_within)
    then have "sublist old ((x # p) @ butlast old)"
      using prefix_imp_sublist by fastforce
    with Cons.prems show False by simp
  qed
  from Cons.prems have "\<not> sublist old (p @ butlast old)"
    by (simp add: sublist_Cons_right)
  then have "replace old new (p @ old @ t) = p @ new @ replace old new t"
    by (rule Cons.IH)
  with np assms(1) show ?case
    by (simp add: replace_nonempty [of old new "x # p @ old @ t"])
qed

lemma replace_keeps_new:
  assumes "old \<noteq> []" and "new \<noteq> []" and "last new \<notin> set (replace old new s)"
  shows "replace old new s = s"
  using assms(3)
proof (induction s rule: length_induct)
  case (1 s)
  show ?case
  proof (cases "s = []")
    case True
    with assms(1) show ?thesis by simp
  next
    case False
    show ?thesis
    proof (cases "prefix old s")
      case True
      with False assms(1) have "replace old new s = new @ replace old new (drop (length old) s)"
        by (simp add: replace_nonempty)
      with assms(2) have "last new \<in> set (replace old new s)" by simp
      with "1.prems" show ?thesis by simp
    next
      case np: False
      with False assms(1) have r: "replace old new s = hd s # replace old new (tl s)"
        by (simp add: replace_nonempty)
      with "1.prems" have "last new \<notin> set (replace old new (tl s))" by simp
      moreover from False have "length (tl s) < length s" by simp
      ultimately have "replace old new (tl s) = tl s" using "1.IH" by blast
      with r False show ?thesis by simp
    qed
  qed
qed

lemma replace_suffix_back:
  assumes "old \<noteq> []" and "new \<noteq> []" and "last new \<notin> set suf"
      and "suffix suf (replace old new s)"
  shows "suffix suf s"
  using assms(4)
proof (induction s rule: length_induct)
  case (1 s)
  show ?case
  proof (cases "s = []")
    case True
    with "1.prems" assms(1) show ?thesis by simp
  next
    case False
    show ?thesis
    proof (cases "prefix old s")
      case True
      with False assms(1) have r: "replace old new s = new @ replace old new (drop (length old) s)"
        by (simp add: replace_nonempty)
      let ?R = "replace old new (drop (length old) s)"
      from "1.prems" r have "suffix suf ?R \<or> (\<exists>u. suf = u @ ?R \<and> suffix u new)"
        by (simp add: suffix_append)
      then have "suffix suf ?R"
      proof
        assume "suffix suf ?R"
        then show ?thesis .
      next
        assume "\<exists>u. suf = u @ ?R \<and> suffix u new"
        then obtain u where u: "suf = u @ ?R" "suffix u new" by blast
        show ?thesis
        proof (cases "u = []")
          case True
          with u show ?thesis by simp
        next
          case False
          with u(2) have "last u = last new"
            by (metis last_appendR suffix_def)
          with False have "last new \<in> set u"
            by (metis last_in_set)
          with u(1) assms(3) show ?thesis by simp
        qed
      qed
      moreover from assms(1) False have "length (drop (length old) s) < length s" by simp
      ultimately have "suffix suf (drop (length old) s)" using "1.IH" by blast
      then show ?thesis
        by (meson suffix_drop suffix_order.trans)
    next
      case np: False
      with False assms(1) have r: "replace old new s = hd s # replace old new (tl s)"
        by (simp add: replace_nonempty)
      with "1.prems" have "suf = hd s # replace old new (tl s) \<or> suffix suf (replace old new (tl s))"
        by (simp add: suffix_Cons)
      then show ?thesis
      proof
        assume e: "suf = hd s # replace old new (tl s)"
        with assms(3) have "last new \<notin> set (replace old new (tl s))" by simp
        with assms(1,2) have "replace old new (tl s) = tl s" by (rule replace_keeps_new)
        with e False show ?thesis by simp
      next
        assume "suffix suf (replace old new (tl s))"
        moreover from False have "length (tl s) < length s" by simp
        ultimately have "suffix suf (tl s)" using "1.IH" by blast
        then show ?thesis
          by (meson suffix_order.trans suffix_tl)
      qed
    qed
  qed
qed

lemma replace_eq_Nil:
  assumes "old \<noteq> []" and "new \<noteq> []"
  shows "replace old new s = [] \<longleftrightarrow> s = []"
  using assms by (simp add: replace_nonempty [of old new s])

lemma suffix_past:
  assumes "c \<notin> set suf"
  shows "suffix suf (xs @ c # t) \<longleftrightarrow> suffix suf t"
proof
  assume "suffix suf (xs @ c # t)"
  then have "suffix suf ((xs @ [c]) @ t)" by simp
  then have "suffix suf t \<or> (\<exists>u. suf = u @ t \<and> suffix u (xs @ [c]))"
    by (simp only: suffix_append)
  then show "suffix suf t"
  proof
    assume "suffix suf t"
    then show ?thesis .
  next
    assume "\<exists>u. suf = u @ t \<and> suffix u (xs @ [c])"
    then obtain u where u: "suf = u @ t" "suffix u (xs @ [c])" by blast
    show ?thesis
    proof (cases "u = []")
      case True
      with u show ?thesis by simp
    next
      case False
      with u(2) have "last u = c"
        by (metis last_appendR last_snoc suffix_def)
      with False have "c \<in> set u"
        by (metis last_in_set)
      with u(1) assms show ?thesis by simp
    qed
  qed
next
  assume "suffix suf t"
  then show "suffix suf (xs @ c # t)"
    by (metis append_Cons append_assoc suffix_def)
qed

section \<open>The entries of a document\<close>

lemma parse_papers_length:
  "length (parse_papers root) = length (findall (ATOM @ lit ''entry'') root)"
  by (simp add: parse_papers_def)

lemma parse_papers_nth:
  "i < length (findall (ATOM @ lit ''entry'') root) \<Longrightarrow>
     parse_papers root ! i = paper_of_entry (findall (ATOM @ lit ''entry'') root ! i)"
  by (simp add: parse_papers_def)

lemma author_names_skips:
  "author_names entry =
     map (\<lambda>a. el_text (the (find_elem (ATOM @ lit ''name'') a)))
       (filter (\<lambda>a. find_elem (ATOM @ lit ''name'') a \<noteq> None)
          (findall (ATOM @ lit ''author'') entry))"
proof -
  have "List.map_filter (\<lambda>a. map_option el_text (f a)) xs =
        map (\<lambda>a. el_text (the (f a))) (filter (\<lambda>a. f a \<noteq> None) xs)"
    for f :: "element \<Rightarrow> element option" and xs
    by (induction xs) (auto simp: List.map_filter_simps)
  then show ?thesis by (simp add: author_names_def)
qed

lemma node_text_map:
  "el_text el = Some s \<Longrightarrow>
     node_text (Some el) = map (\<lambda>c. if c = 10 then 32 else c) (strip s)"
  by (cases "s = []") (simp_all add: node_text_def replace_char strip_def)

text \<open>
  Claim C7. Every extracted text field is the text of its node without the leading and
  trailing whitespace and with each newline replaced by one space; an absent node and a
  node whose text is \<open>None\<close> or empty give the empty string.
\<close>

theorem node_text_normalises:
  "node_text None = [] \<and>
   (el_text el = None \<or> el_text el = Some [] \<longrightarrow> node_text (Some el) = []) \<and>
   (el_text el = Some s \<longrightarrow>
      (\<exists>pre post. s = pre @ strip s @ post \<and>
         (\<forall>c\<in>set pre. isspace c) \<and> (\<forall>c\<in>set post. isspace c)) \<and>
      (strip s \<noteq> [] \<longrightarrow> \<not> isspace (hd (strip s)) \<and> \<not> isspace (last (strip s))) \<and>
      node_text (Some el) = map (\<lambda>c. if c = 10 then 32 else c) (strip s) \<and>
      10 \<notin> set (node_text (Some el)) \<and>
      (node_text (Some el) \<noteq> [] \<longrightarrow>
         \<not> isspace (hd (node_text (Some el))) \<and> \<not> isspace (last (node_text (Some el)))))"
proof (intro conjI impI)
  show "node_text None = []" by (simp add: node_text_def)
next
  assume "el_text el = None \<or> el_text el = Some []"
  then show "node_text (Some el) = []" by (auto simp: node_text_def)
next
  show "\<exists>pre post. s = pre @ strip s @ post \<and>
         (\<forall>c\<in>set pre. isspace c) \<and> (\<forall>c\<in>set post. isspace c)"
    by (rule strip_decomp)
next
  assume "strip s \<noteq> []"
  then show "\<not> isspace (hd (strip s))" by (rule strip_hd)
next
  assume "strip s \<noteq> []"
  then show "\<not> isspace (last (strip s))" by (rule strip_last)
next
  assume "el_text el = Some s"
  then show "node_text (Some el) = map (\<lambda>c. if c = 10 then 32 else c) (strip s)"
    by (rule node_text_map)
next
  assume "el_text el = Some s"
  then have "node_text (Some el) = map (\<lambda>c. if c = 10 then 32 else c) (strip s)"
    by (rule node_text_map)
  then show "10 \<notin> set (node_text (Some el))" by auto
next
  assume e: "el_text el = Some s" and n: "node_text (Some el) \<noteq> []"
  from e have m: "node_text (Some el) = map (\<lambda>c. if c = 10 then 32 else c) (strip s)"
    by (rule node_text_map)
  with n have ne: "strip s \<noteq> []" by auto
  then have h: "\<not> isspace (hd (strip s))" by (rule strip_hd)
  then have "hd (strip s) \<noteq> 10" by (auto simp: isspace_def)
  with ne h show "\<not> isspace (hd (node_text (Some el)))"
    by (simp add: m hd_map)
next
  assume e: "el_text el = Some s" and n: "node_text (Some el) \<noteq> []"
  from e have m: "node_text (Some el) = map (\<lambda>c. if c = 10 then 32 else c) (strip s)"
    by (rule node_text_map)
  with n have ne: "strip s \<noteq> []" by auto
  then have h: "\<not> isspace (last (strip s))" by (rule strip_last)
  then have "last (strip s) \<noteq> 10" by (auto simp: isspace_def)
  with ne h show "\<not> isspace (last (node_text (Some el)))"
    by (simp add: m last_map)
qed

theorem node_text_normalises_witness:
  "el_text (Element (lit ''title'') (Some ([32, 9] @ lit ''Deep'' @ [10] @ lit ''Nets'' @ [10, 0xA0])) [])
     = Some ([32, 9] @ lit ''Deep'' @ [10] @ lit ''Nets'' @ [10, 0xA0]) \<and>
   strip ([32, 9] @ lit ''Deep'' @ [10] @ lit ''Nets'' @ [10, 0xA0]) = lit ''Deep'' @ [10] @ lit ''Nets'' \<and>
   node_text (Some (Element (lit ''title'')
     (Some ([32, 9] @ lit ''Deep'' @ [10] @ lit ''Nets'' @ [10, 0xA0])) [])) = lit ''Deep Nets''"
  using node_text_normalises
    [of "Element (lit ''title'') (Some ([32, 9] @ lit ''Deep'' @ [10] @ lit ''Nets'' @ [10, 0xA0])) []"
        "[32, 9] @ lit ''Deep'' @ [10] @ lit ''Nets'' @ [10, 0xA0]"]
  by (simp add: strip_def isspace_def lit_def)

text \<open>
  Claim C5. The identifier \<open>https://site/abs/1234.5678\<close> gives the link
  \<open>https://site/pdf/1234.5678.pdf\<close>, and so does every identifier of that form: when
  \<open>/abs/\<close> occurs in \<open>site/abs/ident\<close> at the place shown and nowhere else, the link is
  \<open>site/pdf/ident\<close> followed by \<open>.pdf\<close>, unless \<open>ident\<close> ends in \<open>.pdf\<close> already. For
  every identifier whatever: one that ends in \<open>.pdf\<close> gets no second suffix after the
  substitution; one that is not empty and does not end in \<open>.pdf\<close> gets the suffix after
  the substitution; the empty identifier gives the empty link.
\<close>

theorem pdf_link_derivation:
  "pdf_link (lit ''https://site/abs/1234.5678'') = lit ''https://site/pdf/1234.5678.pdf'' \<and>
   (endswith i (lit ''.pdf'') \<longrightarrow>
      pdf_link i = replace (lit ''/abs/'') (lit ''/pdf/'') i \<and> endswith (pdf_link i) (lit ''.pdf'')) \<and>
   pdf_link [] = [] \<and>
   (i \<noteq> [] \<and> \<not> endswith i (lit ''.pdf'') \<longrightarrow>
      pdf_link i = replace (lit ''/abs/'') (lit ''/pdf/'') i @ lit ''.pdf'') \<and>
   (\<not> sublist (lit ''/abs/'') (site @ lit ''/abs'') \<and> \<not> sublist (lit ''/abs/'') ident \<longrightarrow>
      pdf_link (site @ lit ''/abs/'' @ ident) =
        site @ lit ''/pdf/'' @ ident @ (if endswith ident (lit ''.pdf'') then [] else lit ''.pdf''))"
proof (intro conjI impI)
  show "pdf_link (lit ''https://site/abs/1234.5678'') = lit ''https://site/pdf/1234.5678.pdf''"
    by code_simp
next
  assume e: "endswith i (lit ''.pdf'')"
  have "lit ''/abs/'' \<noteq> []" and "last (lit ''/abs/'') \<notin> set (lit ''.pdf'')"
    by (simp_all add: lit_def)
  moreover from e have "suffix (lit ''.pdf'') i"
    by (simp add: endswith_def)
  ultimately have "suffix (lit ''.pdf'') (replace (lit ''/abs/'') (lit ''/pdf/'') i)"
    by (rule replace_keeps_suffix)
  then have r: "endswith (replace (lit ''/abs/'') (lit ''/pdf/'') i) (lit ''.pdf'')"
    by (simp add: endswith_def)
  then show p: "pdf_link i = replace (lit ''/abs/'') (lit ''/pdf/'') i"
    by (simp add: pdf_link_def Let_def)
  from r show "endswith (pdf_link i) (lit ''.pdf'')"
    unfolding p .
next
  show "pdf_link [] = []"
    by (simp add: pdf_link_def Let_def lit_def)
next
  assume a: "i \<noteq> [] \<and> \<not> endswith i (lit ''.pdf'')"
  have n: "lit ''/abs/'' \<noteq> []" "lit ''/pdf/'' \<noteq> []" "last (lit ''/pdf/'') \<notin> set (lit ''.pdf'')"
    by (simp_all add: lit_def)
  from a n(1,2) have "replace (lit ''/abs/'') (lit ''/pdf/'') i \<noteq> []"
    by (simp add: replace_eq_Nil)
  moreover have "\<not> endswith (replace (lit ''/abs/'') (lit ''/pdf/'') i) (lit ''.pdf'')"
  proof
    assume "endswith (replace (lit ''/abs/'') (lit ''/pdf/'') i) (lit ''.pdf'')"
    then have "suffix (lit ''.pdf'') (replace (lit ''/abs/'') (lit ''/pdf/'') i)"
      by (simp add: endswith_def)
    with n have "suffix (lit ''.pdf'') i" by (rule replace_suffix_back)
    with a show False by (simp add: endswith_def)
  qed
  ultimately show "pdf_link i = replace (lit ''/abs/'') (lit ''/pdf/'') i @ lit ''.pdf''"
    by (simp add: pdf_link_def Let_def)
next
  assume a: "\<not> sublist (lit ''/abs/'') (site @ lit ''/abs'') \<and> \<not> sublist (lit ''/abs/'') ident"
  have n: "lit ''/abs/'' \<noteq> []" and b: "butlast (lit ''/abs/'') = lit ''/abs''"
    by (simp_all add: lit_def)
  from a b have "\<not> sublist (lit ''/abs/'') (site @ butlast (lit ''/abs/''))" by simp
  with n have "replace (lit ''/abs/'') (lit ''/pdf/'') (site @ lit ''/abs/'' @ ident) =
                 site @ lit ''/pdf/'' @ replace (lit ''/abs/'') (lit ''/pdf/'') ident"
    by (rule replace_first)
  moreover from n a have "replace (lit ''/abs/'') (lit ''/pdf/'') ident = ident"
    by (intro replace_unchanged) simp_all
  ultimately have r: "replace (lit ''/abs/'') (lit ''/pdf/'') (site @ lit ''/abs/'' @ ident) =
                 site @ lit ''/pdf/'' @ ident"
    by simp
  have "lit ''/pdf/'' @ ident = lit ''/pdf'' @ 47 # ident"
    by (simp add: lit_def)
  then have "site @ lit ''/pdf/'' @ ident = (site @ lit ''/pdf'') @ 47 # ident"
    by simp
  moreover have "47 \<notin> set (lit ''.pdf'')"
    by (simp add: lit_def)
  then have "suffix (lit ''.pdf'') ((site @ lit ''/pdf'') @ 47 # ident) \<longleftrightarrow> suffix (lit ''.pdf'') ident"
    by (rule suffix_past)
  ultimately have "suffix (lit ''.pdf'') (site @ lit ''/pdf/'' @ ident) \<longleftrightarrow> suffix (lit ''.pdf'') ident"
    by simp
  then have e: "endswith (site @ lit ''/pdf/'' @ ident) (lit ''.pdf'') \<longleftrightarrow> endswith ident (lit ''.pdf'')"
    by (simp add: endswith_def)
  have ne: "site @ lit ''/pdf/'' @ ident \<noteq> []"
    by (simp add: lit_def)
  from r e ne show "pdf_link (site @ lit ''/abs/'' @ ident) =
        site @ lit ''/pdf/'' @ ident @ (if endswith ident (lit ''.pdf'') then [] else lit ''.pdf'')"
    by (simp add: pdf_link_def Let_def)
qed

theorem pdf_link_derivation_witness:
  "endswith (lit ''https://site/abs/1234.5678.pdf'') (lit ''.pdf'') \<and>
   pdf_link (lit ''https://site/abs/1234.5678.pdf'') = lit ''https://site/pdf/1234.5678.pdf'' \<and>
   pdf_link (lit ''1234.5678'') = lit ''1234.5678.pdf'' \<and>
   pdf_link (lit ''http://arxiv.org'' @ lit ''/abs/'' @ lit ''hep-th/9901001v2'') =
     lit ''http://arxiv.org'' @ lit ''/pdf/'' @ lit ''hep-th/9901001v2'' @ lit ''.pdf''"
proof -
  have e: "endswith (lit ''https://site/abs/1234.5678.pdf'') (lit ''.pdf'')"
    by code_simp
  have r: "replace (lit ''/abs/'') (lit ''/pdf/'') (lit ''https://site/abs/1234.5678.pdf'')
        = lit ''https://site/pdf/1234.5678.pdf''"
    by code_simp
  have e2: "lit ''1234.5678'' \<noteq> []" "\<not> endswith (lit ''1234.5678'') (lit ''.pdf'')"
    by code_simp+
  have r2: "replace (lit ''/abs/'') (lit ''/pdf/'') (lit ''1234.5678'') = lit ''1234.5678''"
    by code_simp
  have e3: "\<not> sublist (lit ''/abs/'') (lit ''http://arxiv.org'' @ lit ''/abs'')"
       "\<not> sublist (lit ''/abs/'') (lit ''hep-th/9901001v2'')"
       "\<not> endswith (lit ''hep-th/9901001v2'') (lit ''.pdf'')"
    by code_simp+
  from pdf_link_derivation [of "lit ''https://site/abs/1234.5678.pdf''"] e r
  have a: "pdf_link (lit ''https://site/abs/1234.5678.pdf'') = lit ''https://site/pdf/1234.5678.pdf''"
    by simp
  from pdf_link_derivation [of "lit ''1234.5678''"] e2 r2
  have b: "pdf_link (lit ''1234.5678'') = lit ''1234.5678.pdf''"
    by (simp add: lit_def)
  from pdf_link_derivation [of _ "lit ''http://arxiv.org''" "lit ''hep-th/9901001v2''"] e3
  have c: "pdf_link (lit ''http://arxiv.org'' @ lit ''/abs/'' @ lit ''hep-th/9901001v2'') =
     lit ''http://arxiv.org'' @ lit ''/pdf/'' @ lit ''hep-th/9901001v2'' @ lit ''.pdf''"
    by simp
  from e a b c show ?thesis by simp
qed

text \<open>
  Claim C1. The records are those of the entry nodes, in document order, and an author
  without a \<open>name\<close> element is skipped (the three lemmas above). But an author whose
  \<open>name\<close> element is empty contributes \<open>None\<close>, not a string: the comprehension of line 57
  reads \<open>text\<close> without the guard that \<open>_text\<close> applies to the other fields.
\<close>

theorem parse_papers_empty_author_name:
  "parse_papers
     (Element (ATOM @ lit ''feed'') None
        [Element (ATOM @ lit ''entry'') None
           [Element (ATOM @ lit ''author'') None
              [Element (ATOM @ lit ''name'') None []]]])
   = [\<lparr>id_url = [], title = [], summary = [], authors = [None], updated = [], pdf = []\<rparr>]"
  by code_simp

section \<open>The URL\<close>

lemma str_nat_digits: "\<forall>c\<in>set (str_nat n). 48 \<le> c \<and> c \<le> 57"
proof (induction n rule: str_nat.induct)
  case (1 n)
  show ?case
  proof (cases "n < 10")
    case True
    then show ?thesis by (subst str_nat.simps) simp
  next
    case False
    with 1 show ?thesis by (subst str_nat.simps) auto
  qed
qed

lemma decimal_value_snoc: "decimal_value (s @ [c]) = 10 * decimal_value s + (c - 48)"
  by (simp add: decimal_value_def)

lemma decimal_value_str_nat: "decimal_value (str_nat n) = n"
proof (induction n rule: str_nat.induct)
  case (1 n)
  show ?case
  proof (cases "n < 10")
    case True
    then show ?thesis by (subst str_nat.simps) (simp add: decimal_value_def)
  next
    case False
    with 1 have "decimal_value (str_nat (n div 10)) = n div 10" by simp
    with False show ?thesis
      by (subst str_nat.simps) (simp add: decimal_value_snoc)
  qed
qed

lemma str_nat_nonempty: "str_nat n \<noteq> []"
  by (subst str_nat.simps) simp

lemma utf8_char_bytes: "c < 0x110000 \<Longrightarrow> \<forall>b\<in>set (utf8_char c). b < 256"
  by (auto simp: utf8_char_def)

lemma hex_upper_safe: "d < 16 \<Longrightarrow> always_safe (hex_upper d)"
  by (auto simp: hex_upper_def always_safe_def)

lemma quote_byte_safe:
  assumes "b < 256"
  shows "\<forall>c\<in>set (quote_byte b). always_safe c \<or> c = 47 \<or> c = 37"
proof -
  from assms have "b div 16 < 16" by simp
  then have "always_safe (hex_upper (b div 16))" by (rule hex_upper_safe)
  moreover have "always_safe (hex_upper (b mod 16))" by (rule hex_upper_safe) simp
  ultimately show ?thesis by (simp add: quote_byte_def)
qed

lemma quote_ok:
  assumes "\<forall>c\<in>set s. \<not> is_surrogate c"
  shows "quote s = Inr (concat (map quote_byte (concat (map utf8_char s))))"
  using assms by (simp add: quote_def encode_utf8_def has_surrogate_def)

lemma quote_chars:
  assumes "\<forall>c\<in>set s. c < 0x110000"
  shows "\<forall>c\<in>set (concat (map quote_byte (concat (map utf8_char s)))). always_safe c \<or> c = 47 \<or> c = 37"
proof -
  have "\<forall>b\<in>set (concat (map utf8_char s)). b < 256"
    using assms utf8_char_bytes by fastforce
  then show ?thesis using quote_byte_safe by fastforce
qed

lemma length_str_nat_le:
  assumes "0 < d"
  shows "length (str_nat n) \<le> d \<longleftrightarrow> n < 10 ^ d"
  using assms
proof (induction n arbitrary: d rule: str_nat.induct)
  case (1 n)
  show ?case
  proof (cases "n < 10")
    case True
    have "(10::nat) ^ 1 \<le> 10 ^ d"
      using "1.prems" by (intro power_increasing) simp_all
    with True have "n < 10 ^ d" by simp
    moreover from True have "length (str_nat n) = 1"
      by (subst str_nat.simps) simp
    ultimately show ?thesis using "1.prems" by simp
  next
    case False
    then have l: "length (str_nat n) = Suc (length (str_nat (n div 10)))"
      by (subst str_nat.simps) simp
    show ?thesis
    proof (cases d)
      case 0
      with "1.prems" show ?thesis by simp
    next
      case (Suc d')
      show ?thesis
      proof (cases "d' = 0")
        case True
        have "str_nat (n div 10) \<noteq> []" by (rule str_nat_nonempty)
        then have "0 < length (str_nat (n div 10))" by simp
        with l True Suc False show ?thesis by simp
      next
        case d': False
        with False have "length (str_nat (n div 10)) \<le> d' \<longleftrightarrow> n div 10 < 10 ^ d'"
          by (intro "1.IH") simp_all
        moreover have "n div 10 < 10 ^ d' \<longleftrightarrow> n < 10 * 10 ^ d'"
          by (simp add: div_less_iff_less_mult mult.commute)
        ultimately show ?thesis using l Suc by simp
      qed
    qed
  qed
qed

lemma format_int_ok:
  assumes "limit = 0 \<or> length (str_nat (nat \<bar>i\<bar>)) \<le> limit"
  shows "format_int limit i = Inr (str_int i)"
  using assms by (auto simp: format_int_def)

lemma format_int_Inr:
  assumes "format_int limit i = Inr t"
  shows "t = str_int i"
  using assms by (simp add: format_int_def split: if_splits)

lemma format_int_power:
  assumes "0 < d"
  shows "format_int d (10 ^ d) = Inl (int_str_limit_error d)"
proof -
  have e: "nat \<bar>(10::int) ^ d\<bar> = 10 ^ d"
    by (simp add: nat_power_eq)
  have "\<not> length (str_nat (10 ^ d)) \<le> d"
    using assms by (simp add: length_str_nat_le)
  then have "d < length (str_nat (nat \<bar>(10::int) ^ d\<bar>))"
    unfolding e by simp
  with assms show ?thesis
    by (simp only: format_int_def if_True simp_thms)
qed

lemma format_int_20: "format_int 4300 20 = Inr (lit ''20'')"
proof -
  have "str_nat 20 = lit ''20''" by code_simp
  then show ?thesis
    by (simp add: format_int_def str_int_def lit_def)
qed

lemma int_str_limit_error_4300:
  "int_str_limit_error 4300 =
     Exn ''ValueError''
       (lit ''Exceeds the limit (4300 digits) for integer string conversion; use sys.set_int_max_str_digits() to increase the limit'')"
proof -
  have "str_nat 4300 = lit ''4300''" by code_simp
  then show ?thesis
    by (simp add: int_str_limit_error_def lit_def)
qed

lemma build_url_long_count:
  assumes "\<not> has_surrogate q" and "0 < d"
  shows "build_url d q (10 ^ d) = Inl (int_str_limit_error d)"
  using assms(1) format_int_power [OF assms(2)]
  by (simp add: build_url_def quote_def encode_utf8_def)

text \<open>
  Claim C6. For every query without a lone surrogate and every max-results value that has
  no more digits than the interpreter lets an \<open>int\<close> have in decimal (4300 by default,
  and any number when the limit is 0), the URL is built and is the fixed prefix, the
  percent-encoded UTF-8 of the query, the start offset 0, the decimal max-results value
  and the fixed sort parameters. A query with a lone surrogate makes \<open>quote\<close> raise
  \<open>UnicodeEncodeError\<close>, and a count of 4301 digits makes the f-string raise
  \<open>ValueError\<close> under the default limit.
\<close>

theorem build_url_encodes:
  assumes "\<forall>c\<in>set query. c < 0x110000 \<and> \<not> is_surrogate c"
      and "limit = 0 \<or> length (str_nat (nat \<bar>max_results\<bar>)) \<le> limit"
  shows "\<exists>encoded.
           quote query = Inr encoded \<and>
           encoded = concat (map quote_byte (concat (map utf8_char query))) \<and>
           (\<forall>c\<in>set encoded. always_safe c \<or> c = 47 \<or> c = 37) \<and>
           build_url limit query max_results =
             Inr (lit ''https://export.arxiv.org/api/query?search_query='' @ encoded
                  @ lit ''&start=0&max_results='' @ str_int max_results
                  @ lit ''&sortBy=lastUpdatedDate&sortOrder=descending'') \<and>
           (0 \<le> max_results \<longrightarrow>
              (\<forall>c\<in>set (str_int max_results). 48 \<le> c \<and> c \<le> 57) \<and>
              int (decimal_value (str_int max_results)) = max_results)"
proof -
  let ?enc = "concat (map quote_byte (concat (map utf8_char query)))"
  from assms(1) have q: "quote query = Inr ?enc" by (simp add: quote_ok)
  from assms(1) have c: "\<forall>c\<in>set ?enc. always_safe c \<or> c = 47 \<or> c = 37"
    by (intro quote_chars) simp
  from assms(2) have f: "format_int limit max_results = Inr (str_int max_results)"
    by (rule format_int_ok)
  from q f have u: "build_url limit query max_results =
             Inr (lit ''https://export.arxiv.org/api/query?search_query='' @ ?enc
                  @ lit ''&start=0&max_results='' @ str_int max_results
                  @ lit ''&sortBy=lastUpdatedDate&sortOrder=descending'')"
    by (simp add: build_url_def lit_def)
  have d: "0 \<le> max_results \<longrightarrow>
              (\<forall>c\<in>set (str_int max_results). 48 \<le> c \<and> c \<le> 57) \<and>
              int (decimal_value (str_int max_results)) = max_results"
    using str_nat_digits by (simp add: str_int_def decimal_value_str_nat)
  from q c u d show ?thesis by blast
qed

theorem build_url_encodes_witness:
  "build_url 4300 (lit ''all:machine learning'' @ [233]) 20 =
     Inr (lit ''https://export.arxiv.org/api/query?search_query=all%3Amachine%20learning%C3%A9&start=0&max_results=20&sortBy=lastUpdatedDate&sortOrder=descending'')"
proof -
  have h: "\<forall>c\<in>set (lit ''all:machine learning'' @ [233]). c < 0x110000 \<and> \<not> is_surrogate c"
    by (simp add: lit_def is_surrogate_def)
  have e: "concat (map quote_byte (concat (map utf8_char (lit ''all:machine learning'' @ [233]))))
         = lit ''all%3Amachine%20learning%C3%A9''"
    by code_simp
  have n: "str_int 20 = lit ''20''"
    by code_simp
  have "str_nat (nat \<bar>20\<bar>) = lit ''20''"
    by code_simp
  then have l: "(4300::nat) = 0 \<or> length (str_nat (nat \<bar>20\<bar>)) \<le> 4300"
    by (simp add: lit_def)
  from build_url_encodes [OF h l] h e n show ?thesis
    by (simp add: lit_def)
qed

theorem build_url_fails_counterexample:
  "build_url 4300 [0xDCFF] 20 =
     Inl (Exn ''UnicodeEncodeError''
            ([39] @ lit ''utf-8' codec can't encode character '' @ [39, 92] @ lit ''udcff''
             @ [39] @ lit '' in position 0: surrogates not allowed'')) \<and>
   build_url 4300 (lit ''all:machine learning'') (10 ^ 4300) =
     Inl (Exn ''ValueError''
            (lit ''Exceeds the limit (4300 digits) for integer string conversion; use sys.set_int_max_str_digits() to increase the limit''))"
proof (rule conjI)
  have s: "is_surrogate 0xDCFF"
    by (simp add: is_surrogate_def)
  have z: "str_nat 0 = [48]"
    by (subst str_nat.simps) simp
  have "unicode_encode_error [0xDCFF] =
     Exn ''UnicodeEncodeError''
            ([39] @ lit ''utf-8' codec can't encode character '' @ [39, 92] @ lit ''udcff''
             @ [39] @ lit '' in position 0: surrogates not allowed'')"
    using s by (simp add: unicode_encode_error_def Let_def z hex_lower_def lit_def)
  with s show "build_url 4300 [0xDCFF] 20 =
     Inl (Exn ''UnicodeEncodeError''
            ([39] @ lit ''utf-8' codec can't encode character '' @ [39, 92] @ lit ''udcff''
             @ [39] @ lit '' in position 0: surrogates not allowed''))"
    by (simp add: build_url_def quote_def encode_utf8_def has_surrogate_def)
next
  have "\<not> has_surrogate (lit ''all:machine learning'')"
    by (simp add: has_surrogate_def lit_def is_surrogate_def)
  moreover have "(0::nat) < 4300" by simp
  ultimately have "build_url 4300 (lit ''all:machine learning'') (10 ^ 4300) =
                     Inl (int_str_limit_error 4300)"
    by (rule build_url_long_count)
  then show "build_url 4300 (lit ''all:machine learning'') (10 ^ 4300) =
     Inl (Exn ''ValueError''
            (lit ''Exceeds the limit (4300 digits) for integer string conversion; use sys.set_int_max_str_digits() to increase the limit''))"
    by (simp only: int_str_limit_error_4300)
qed

section \<open>Resolving the configuration\<close>

text \<open>
  Claim C4. The query is the \<open>--query\<close> argument when it is given and not empty, else
  \<open>ARXIV_QUERY\<close> when it is set and not empty, else the built-in default. The max-results
  count is \<open>int\<close> of \<open>MAX_RESULTS\<close> whenever that variable is present, whatever \<open>--max\<close>
  says (and \<open>main\<close> ends with the \<open>ValueError\<close> when \<open>int\<close> rejects it, from the namespace
  on and so from every command line that \<open>argparse\<close> accepts), else the \<open>--max\<close>
  argument, whose default is 20.
\<close>

theorem resolve_configuration:
  "(arg_query a = Some q \<and> q \<noteq> [] \<longrightarrow> resolve_query h a = q) \<and>
   ((arg_query a = None \<or> arg_query a = Some []) \<and>
      environ h (lit ''ARXIV_QUERY'') = Some v \<and> v \<noteq> [] \<longrightarrow> resolve_query h a = v) \<and>
   ((arg_query a = None \<or> arg_query a = Some []) \<and>
      (environ h (lit ''ARXIV_QUERY'') = None \<or> environ h (lit ''ARXIV_QUERY'') = Some []) \<longrightarrow>
      resolve_query h a = lit ''all:machine learning'') \<and>
   (environ h (lit ''MAX_RESULTS'') = Some m \<and> int_of_str h m = Inr n \<longrightarrow>
      resolve_max_results h a = Inr n) \<and>
   (environ h (lit ''MAX_RESULTS'') = Some m \<and> int_of_str h m = Inl e \<longrightarrow>
      resolve_max_results h a = Inl e \<and> main_body h a s = Raised e s \<and>
      (parse_command_line h argv = Inr a \<longrightarrow> main h argv s = Raised e s)) \<and>
   (environ h (lit ''MAX_RESULTS'') = None \<longrightarrow> resolve_max_results h a = Inr (arg_max a)) \<and>
   arg_max (parse_args gq None gout) = 20 \<and>
   arg_max (parse_args gq (Some gm) gout) = gm"
  by (auto simp: resolve_query_def resolve_max_results_def parse_args_def main_body_def main_def
        Let_def)

theorem explicit_empty_query_counterexample:
  "arg_query (parse_args (Some []) None None) = Some [] \<and>
   resolve_query (example_host\<lparr>environ := [lit ''ARXIV_QUERY'' \<mapsto> lit ''cat:cs.AI'']\<rparr>)
     (parse_args (Some []) None None) = lit ''cat:cs.AI''"
  by (simp add: resolve_query_def parse_args_def example_host_def Let_def lit_def)

theorem resolve_configuration_witness:
  "resolve_query (example_host\<lparr>environ := [lit ''ARXIV_QUERY'' \<mapsto> lit ''cat:cs.AI'',
                                              lit ''MAX_RESULTS'' \<mapsto> lit ''7'']\<rparr>)
     (parse_args (Some (lit ''all:physics'')) (Some 50) None) = lit ''all:physics'' \<and>
   resolve_query (example_host\<lparr>environ := [lit ''ARXIV_QUERY'' \<mapsto> lit ''cat:cs.AI'',
                                              lit ''MAX_RESULTS'' \<mapsto> lit ''7'']\<rparr>)
     (parse_args None (Some 50) None) = lit ''cat:cs.AI'' \<and>
   resolve_query example_host (parse_args None None None) = lit ''all:machine learning'' \<and>
   resolve_max_results (example_host\<lparr>environ := [lit ''ARXIV_QUERY'' \<mapsto> lit ''cat:cs.AI'',
                                              lit ''MAX_RESULTS'' \<mapsto> lit ''7'']\<rparr>)
     (parse_args None (Some 50) None) = Inr 7 \<and>
   resolve_max_results example_host (parse_args None (Some 50) None) = Inr 50"
proof -
  let ?h = "example_host\<lparr>environ := [lit ''ARXIV_QUERY'' \<mapsto> lit ''cat:cs.AI'',
                                       lit ''MAX_RESULTS'' \<mapsto> lit ''7'']\<rparr>"
  have e1: "environ ?h (lit ''ARXIV_QUERY'') = Some (lit ''cat:cs.AI'')"
    by (simp add: lit_def)
  have e2: "environ ?h (lit ''MAX_RESULTS'') = Some (lit ''7'')"
    by (simp add: lit_def)
  have e3: "int_of_str ?h (lit ''7'') = Inr 7"
    by (simp add: example_host_def int_decimal_def decimal_value_def lit_def)
  have e4: "environ example_host (lit ''ARXIV_QUERY'') = None"
       "environ example_host (lit ''MAX_RESULTS'') = None"
    by (simp_all add: example_host_def)
  have n: "lit ''all:physics'' \<noteq> []" "lit ''cat:cs.AI'' \<noteq> []"
    by (simp_all add: lit_def)
  note t = resolve_configuration
  from t [of "parse_args (Some (lit ''all:physics'')) (Some 50) None" "lit ''all:physics''" ?h]
  have a: "resolve_query ?h (parse_args (Some (lit ''all:physics'')) (Some 50) None) = lit ''all:physics''"
    using n by (simp add: parse_args_def)
  from t [of "parse_args None (Some 50) None" _ ?h "lit ''cat:cs.AI''" "lit ''7''" 7] e1 e2 e3 n
  have b: "resolve_query ?h (parse_args None (Some 50) None) = lit ''cat:cs.AI''"
    and d: "resolve_max_results ?h (parse_args None (Some 50) None) = Inr 7"
    by (simp_all add: parse_args_def)
  from t [of "parse_args None None None" _ example_host] e4
  have c: "resolve_query example_host (parse_args None None None) = lit ''all:machine learning''"
    by (simp add: parse_args_def)
  from t [of "parse_args None (Some 50) None" _ example_host] e4
  have f: "resolve_max_results example_host (parse_args None (Some 50) None) = Inr 50"
    by (simp add: parse_args_def)
  from a b c d f show ?thesis by simp
qed

text \<open>
  Claim C10. An empty \<open>--query\<close> argument resolves like an absent one, an empty
  \<open>ARXIV_QUERY\<close> like an unset one, and the resolved query is never empty.
\<close>

theorem empty_query_never_selected:
  "resolve_query h (a\<lparr>arg_query := Some []\<rparr>) = resolve_query h (a\<lparr>arg_query := None\<rparr>) \<and>
   resolve_query (h\<lparr>environ := (environ h)(lit ''ARXIV_QUERY'' \<mapsto> [])\<rparr>) a =
     resolve_query (h\<lparr>environ := (environ h)(lit ''ARXIV_QUERY'' := None)\<rparr>) a \<and>
   resolve_query h a \<noteq> []"
  by (auto simp: resolve_query_def Let_def lit_def split: option.splits)

section \<open>Lone surrogates\<close>

lemma has_surrogate_simps [simp]:
  "has_surrogate [] = False"
  "has_surrogate (x # xs) = (is_surrogate x \<or> has_surrogate xs)"
  "has_surrogate (xs @ ys) = (has_surrogate xs \<or> has_surrogate ys)"
  by (auto simp: has_surrogate_def)

lemma small_not_surrogate: "c < 256 \<Longrightarrow> \<not> is_surrogate c"
  by (simp add: is_surrogate_def)

lemma has_surrogate_lit [simp]: "\<not> has_surrogate (lit s)"
proof -
  have "\<not> is_surrogate (of_char c)" for c :: char
    by (rule small_not_surrogate) (rule nat_of_char_less_256)
  then show ?thesis by (simp add: has_surrogate_def lit_def)
qed

lemma has_surrogate_str_int [simp]: "\<not> has_surrogate (str_int i)"
proof -
  have "\<not> has_surrogate (str_nat n)" for n
    using str_nat_digits [of n] by (auto simp: has_surrogate_def is_surrogate_def)
  then show ?thesis by (simp add: str_int_def is_surrogate_def)
qed

lemma has_surrogate_newline_indent [simp]: "\<not> has_surrogate (newline_indent l)"
  by (simp add: newline_indent_def has_surrogate_def is_surrogate_def)

lemma hex_lower_small: "hex_lower (d mod 16) < 256" "c < 32 \<Longrightarrow> hex_lower (c div 16) < 256"
proof -
  have b: "hex_lower x < 256" if "x < 16" for x
    using that by (simp add: hex_lower_def)
  have "d mod 16 < 16" by simp
  then show "hex_lower (d mod 16) < 256" by (rule b)
  assume "c < 32"
  then have "c div 16 < 16" by simp
  then show "hex_lower (c div 16) < 256" by (rule b)
qed

lemma has_surrogate_escape_char: "has_surrogate (escape_char c) = is_surrogate c"
proof (cases "c < 32")
  case True
  then have "\<not> is_surrogate c" by (simp add: is_surrogate_def)
  moreover have "\<not> has_surrogate (escape_char c)"
    using True small_not_surrogate [OF hex_lower_small(1) [of c]]
      small_not_surrogate [OF hex_lower_small(2) [OF True]]
    by (simp add: escape_char_def small_not_surrogate)
  ultimately show ?thesis by simp
next
  case False
  then show ?thesis
    by (simp add: escape_char_def small_not_surrogate)
qed

lemma has_surrogate_concat:
  "has_surrogate (concat (map f s)) = (\<exists>c\<in>set s. has_surrogate (f c))"
  by (induction s) auto

lemma has_surrogate_encode_basestring [simp]:
  "has_surrogate (encode_basestring s) = has_surrogate s"
  by (simp add: encode_basestring_def has_surrogate_concat has_surrogate_escape_char
        is_surrogate_def) (simp add: has_surrogate_def is_surrogate_def)

lemma has_surrogate_fallback:
  "has_surrogate (dumps 0 (fallback_result q t err)) = (has_surrogate q \<or> has_surrogate err)"
  by (simp add: fallback_result_def is_surrogate_def)

lemma has_surrogate_result_set:
  "has_surrogate (dumps 0 (result_set q t ps)) = has_surrogate (dumps 0 (result_set q t' ps))"
  by (simp add: result_set_def is_surrogate_def)

lemma dump_to_file_ok:
  assumes "open_error h p = None" "write_error h p = None" "\<not> has_surrogate (dumps 0 obj)"
  shows "dump_to_file h s p obj = (None, s\<lparr>files := (files s)(p \<mapsto> Complete (dumps 0 obj))\<rparr>)"
  using assms by (simp add: dump_to_file_def Let_def)


lemma dump_to_file_keeps:
  assumes "dump_to_file h s p obj = (r, s')"
  shows "created s' = created s \<and> ticks s' = ticks s \<and> stdout s' = stdout s \<and>
         (\<forall>p'. p' \<noteq> p \<longrightarrow> files s' p' = files s p')"
  using assms by (auto simp: dump_to_file_def Let_def split: option.splits if_splits)

lemma build_url_ok:
  "\<not> has_surrogate q \<Longrightarrow> format_int limit n = Inr c \<Longrightarrow> \<exists>url. build_url limit q n = Inr url"
  by (simp add: build_url_def quote_def encode_utf8_def)

lemma has_surrogate_dumps_items:
  "has_surrogate (dumps_items l (map f xs)) = (\<exists>x\<in>set xs. has_surrogate (dumps l (f x)))"
  by (induction xs) (auto simp: is_surrogate_def)

lemma has_surrogate_dumps_list:
  "has_surrogate (dumps l (JList (map f xs))) = (\<exists>x\<in>set xs. has_surrogate (dumps (Suc l) (f x)))"
  by (cases xs) (auto simp: is_surrogate_def has_surrogate_dumps_items)

lemma has_surrogate_author: 
  "has_surrogate (dumps l (author_json a)) = (case a of None \<Rightarrow> False | Some n \<Rightarrow> has_surrogate n)"
  by (cases a) (simp_all add: author_json_def)

lemma has_surrogate_paper:
  "has_surrogate (dumps l (paper_json p)) = paper_has_surrogate p"
  by (simp add: paper_json_def paper_has_surrogate_def is_surrogate_def
        has_surrogate_dumps_list has_surrogate_author)

lemma has_surrogate_result:
  "has_surrogate (dumps 0 (result_set q t ps)) =
     (has_surrogate q \<or> (\<exists>p\<in>set ps. paper_has_surrogate p))"
  by (simp add: result_set_def is_surrogate_def has_surrogate_dumps_list has_surrogate_paper)

lemma fetch_Inr_query:
  assumes "fetch h q n = Inr ps"
  shows "\<not> has_surrogate q"
  using assms
  by (auto simp: fetch_def build_url_def quote_def encode_utf8_def split: sum.splits if_splits)

lemma write_output_eq:
  "write_output h s p q ps =
     dump_to_file h (s\<lparr>ticks := Suc (ticks s)\<rparr>) p (result_set q (clock h (ticks s)) ps)"
  by (simp add: write_output_def time_now_def)

lemma set_strip: "set (strip s) \<subseteq> set s"
proof -
  have "set (strip s) \<subseteq> set (dropWhile isspace s)"
    unfolding strip_def by (auto dest: set_dropWhileD)
  also have "\<dots> \<subseteq> set s" by (auto dest: set_dropWhileD)
  finally show ?thesis .
qed

lemma has_surrogate_mono: "set a \<subseteq> set b \<Longrightarrow> has_surrogate a \<Longrightarrow> has_surrogate b"
  by (auto simp: has_surrogate_def)

lemma set_replace: "old \<noteq> [] \<Longrightarrow> set (replace old new s) \<subseteq> set new \<union> set s"
proof (induction "length s" arbitrary: s rule: less_induct)
  case less
  show ?case
  proof (cases "s = []")
    case True
    with less.prems show ?thesis by simp
  next
    case False
    show ?thesis
    proof (cases "prefix old s")
      case True
      from less.prems False have "length (drop (length old) s) < length s" by simp
      then have "set (replace old new (drop (length old) s)) \<subseteq> set new \<union> set (drop (length old) s)"
        using less.hyps less.prems by blast
      moreover have "set (drop (length old) s) \<subseteq> set s" by (rule set_drop_subset)
      moreover from True False less.prems
      have "replace old new s = new @ replace old new (drop (length old) s)"
        by (subst replace_nonempty) simp_all
      ultimately show ?thesis by auto
    next
      case np: False
      from False obtain x xs where s: "s = x # xs" by (cases s) auto
      then have "set (replace old new xs) \<subseteq> set new \<union> set xs"
        using less.hyps less.prems by simp
      moreover from np s less.prems have "replace old new s = x # replace old new xs"
        by (subst replace_nonempty) simp_all
      ultimately show ?thesis using s by auto
    qed
  qed
qed

lemma node_text_clean:
  assumes "has_surrogate (node_text (Some e))"
  shows "\<exists>t. el_text e = Some t \<and> has_surrogate t"
proof (cases "el_text e")
  case None
  with assms show ?thesis by (simp add: node_text_def)
next
  case (Some t)
  with assms have "t \<noteq> []" and r: "has_surrogate (replace [10] [32] (strip t))"
    by (auto simp: node_text_def split: if_splits)
  have "set (replace [10] [32] (strip t)) \<subseteq> set [32] \<union> set (strip t)"
    by (rule set_replace) simp
  with r have "has_surrogate ([32] @ strip t)"
    by (auto simp: has_surrogate_def)
  then have "has_surrogate (strip t)" by (simp add: is_surrogate_def)
  then have "has_surrogate t" by (rule has_surrogate_mono [OF set_strip])
  with Some show ?thesis by simp
qed

lemma find_elem_child: "find_elem t el = Some c \<Longrightarrow> c \<in> set (el_children el)"
proof -
  assume a: "find_elem t el = Some c"
  then obtain cs where "findall t el = c # cs"
    by (auto simp: find_elem_def split: list.splits)
  then have "c \<in> set (findall t el)" by simp
  then show ?thesis by (simp add: findall_def)
qed

lemma el_has_surrogate_child:
  "c \<in> set (el_children e) \<Longrightarrow> el_has_surrogate c \<Longrightarrow> el_has_surrogate e"
  by (cases e) auto

lemma el_has_surrogate_text:
  "el_text e = Some t \<Longrightarrow> has_surrogate t \<Longrightarrow> el_has_surrogate e"
  by (cases e) auto

lemma field_clean:
  assumes "has_surrogate (node_text (find_elem t entry))"
  shows "el_has_surrogate entry"
proof (cases "find_elem t entry")
  case None
  with assms show ?thesis by (simp add: node_text_def)
next
  case (Some c)
  with assms obtain x where "el_text c = Some x" "has_surrogate x"
    using node_text_clean by auto
  then have "el_has_surrogate c" by (rule el_has_surrogate_text)
  with find_elem_child [OF Some] show ?thesis by (rule el_has_surrogate_child)
qed

lemma pdf_link_clean:
  assumes "has_surrogate (pdf_link i)"
  shows "has_surrogate i"
proof -
  let ?r = "replace (lit ''/abs/'') (lit ''/pdf/'') i"
  from assms have "has_surrogate ?r"
    by (auto simp: pdf_link_def Let_def split: if_splits)
  moreover have "set ?r \<subseteq> set (lit ''/pdf/'') \<union> set i"
    by (rule set_replace) (simp add: lit_def)
  ultimately have "has_surrogate (lit ''/pdf/'' @ i)"
    by (auto simp: has_surrogate_def)
  then show ?thesis by simp
qed

lemma author_names_clean:
  assumes "Some n \<in> set (author_names entry)" "has_surrogate n"
  shows "el_has_surrogate entry"
proof -
  from assms(1) obtain a c where a: "a \<in> set (findall (ATOM @ lit ''author'') entry)"
    and c: "find_elem (ATOM @ lit ''name'') a = Some c" and t: "el_text c = Some n"
    by (auto simp: author_names_def List.map_filter_def)
  from t assms(2) have "el_has_surrogate c" by (rule el_has_surrogate_text)
  with find_elem_child [OF c] have "el_has_surrogate a" by (rule el_has_surrogate_child)
  moreover from a have "a \<in> set (el_children entry)" by (simp add: findall_def)
  ultimately show ?thesis by (rule el_has_surrogate_child [rotated])
qed

lemma paper_of_entry_clean:
  assumes "paper_has_surrogate (paper_of_entry entry)"
  shows "el_has_surrogate entry"
proof -
  from assms consider
      (f) t where "has_surrogate (node_text (find_elem t entry))"
    | (p) "has_surrogate (pdf_link (node_text (find_elem (ATOM @ lit ''id'') entry)))"
    | (a) n where "Some n \<in> set (author_names entry)" "has_surrogate n"
    by (auto simp: paper_has_surrogate_def paper_of_entry_def Let_def split: option.splits)
  then show ?thesis
  proof cases
    case f
    then show ?thesis by (rule field_clean)
  next
    case p
    then have "has_surrogate (node_text (find_elem (ATOM @ lit ''id'') entry))"
      by (rule pdf_link_clean)
    then show ?thesis by (rule field_clean)
  next
    case a
    then show ?thesis by (rule author_names_clean)
  qed
qed

lemma parse_papers_clean:
  assumes "\<not> el_has_surrogate root"
  shows "\<forall>p\<in>set (parse_papers root). \<not> paper_has_surrogate p"
proof
  fix p assume "p \<in> set (parse_papers root)"
  then obtain entry where e: "entry \<in> set (el_children root)" and p: "p = paper_of_entry entry"
    by (auto simp: parse_papers_def findall_def)
  show "\<not> paper_has_surrogate p"
  proof
    assume "paper_has_surrogate p"
    with p have "el_has_surrogate entry" by (simp add: paper_of_entry_clean)
    with e have "el_has_surrogate root" by (rule el_has_surrogate_child)
    with assms show False by simp
  qed
qed

section \<open>Runs of the program\<close>

lemma print_ok:
  assumes "print_error h l = None"
  shows "print h s l = (None, s\<lparr>stdout := stdout s @ [l]\<rparr>)"
  using assms by (simp add: print_def)

lemma main_unfold:
  assumes "parse_command_line h argv = Inr a"
  shows "main h argv s = main_body h a s"
  using assms by (simp add: main_def)

lemma main_body_unfold:
  assumes "resolve_max_results h a = Inr n"
      and "format_int (max_str_digits h) n = Inr c"
      and "print_error h (fetching_line (resolve_query h a) c) = None"
  shows "main_body h a s =
     (case try_body h a (resolve_query h a) n
             (s\<lparr>stdout := stdout s @ [fetching_line (resolve_query h a) c]\<rparr>) of
        (None, s2) \<Rightarrow> Returned s2
      | (Some e, s2) \<Rightarrow> handler h a (resolve_query h a) e s2)"
  using assms by (simp add: main_body_def Let_def print_def)

lemma handler_ok:
  assumes "print_error h (error_line e) = None"
      and "open_error h (arg_out a) = None" "write_error h (arg_out a) = None"
      and "\<not> has_surrogate q" "\<not> has_surrogate (exc_str e)"
      and "print_error h (fallback_line (arg_out a)) = None"
  shows "handler h a q e s =
     Returned \<lparr>files = (files s)(arg_out a \<mapsto>
                  Complete (dumps 0 (fallback_result q (clock h (ticks s)) (exc_str e)))),
               created = created s, ticks = Suc (ticks s),
               stdout = stdout s @ [error_line e, fallback_line (arg_out a)]\<rparr>"
proof -
  let ?s2 = "s\<lparr>stdout := stdout s @ [error_line e], ticks := Suc (ticks s)\<rparr>"
  let ?obj = "fallback_result q (clock h (ticks s)) (exc_str e)"
  from assms(4,5) have "\<not> has_surrogate (dumps 0 ?obj)"
    by (simp add: has_surrogate_fallback)
  with assms(2,3)
  have "dump_to_file h ?s2 (arg_out a) ?obj =
          (None, ?s2\<lparr>files := (files ?s2)(arg_out a \<mapsto> Complete (dumps 0 ?obj))\<rparr>)"
    by (rule dump_to_file_ok)
  with assms(1,6) show ?thesis
    by (simp add: handler_def Let_def time_now_def print_def)
qed

lemma handler_open_fails:
  assumes "print_error h (error_line e) = None"
      and "open_error h (arg_out a) = Some e'"
  shows "handler h a q e s =
     Raised e' \<lparr>files = files s, created = created s, ticks = Suc (ticks s),
                stdout = stdout s @ [error_line e]\<rparr>"
  using assms
  by (simp add: handler_def Let_def time_now_def print_def dump_to_file_def)

lemma try_body_fetch_fails:
  assumes "fetch h q n = Inl e"
  shows "try_body h a q n s = (Some e, s)"
  using assms by (simp add: try_body_def)

lemma docs_not_root:
  assumes "startswith p (lit ''docs/'')"
  shows "p \<noteq> lit ''arxiv_data.json''"
proof
  assume "p = lit ''arxiv_data.json''"
  with assms show False by (simp add: startswith_def lit_def)
qed

lemma try_body_success:
  assumes f: "fetch h q n = Inr ps"
      and m: "dirname (arg_out a) \<noteq> [] \<Longrightarrow> makedirs_error h (dirname (arg_out a)) = None"
      and o: "open_error h (arg_out a) = None" "write_error h (arg_out a) = None"
      and p: "\<forall>p\<in>set ps. \<not> paper_has_surrogate p"
      and w: "print_error h (wrote_line (arg_out a) (length ps)) = None"
  shows "\<exists>s3. try_body h a q n s =
                (None, s3\<lparr>stdout := stdout s3 @ [wrote_line (arg_out a) (length ps)]\<rparr>) \<and>
           files s3 (arg_out a) = Some (Complete (dumps 0 (result_set q (clock h (ticks s)) ps))) \<and>
           (startswith (arg_out a) (lit ''docs/'') \<and> open_error h (lit ''arxiv_data.json'') = None \<and>
              write_error h (lit ''arxiv_data.json'') = None \<longrightarrow>
              files s3 (lit ''arxiv_data.json'') =
                Some (Complete (dumps 0 (result_set q (clock h (Suc (ticks s))) ps)))) \<and>
           (\<not> startswith (arg_out a) (lit ''docs/'') \<longrightarrow>
              (\<forall>p'. p' \<noteq> arg_out a \<longrightarrow> files s3 p' = files s p')) \<and>
           (\<forall>p'. p' \<noteq> arg_out a \<and> p' \<noteq> lit ''arxiv_data.json'' \<longrightarrow> files s3 p' = files s p') \<and>
           stdout s3 = stdout s"
proof -
  let ?out = "arg_out a"
  let ?root = "lit ''arxiv_data.json''"
  let ?T0 = "dumps 0 (result_set q (clock h (ticks s)) ps)"
  let ?T1 = "dumps 0 (result_set q (clock h (Suc (ticks s))) ps)"
  from f have q: "\<not> has_surrogate q" by (rule fetch_Inr_query)
  with p have t0: "\<not> has_surrogate ?T0" and t1: "\<not> has_surrogate ?T1"
    by (simp_all add: has_surrogate_result)
  obtain sm where mk: "(if dirname ?out \<noteq> [] then makedirs h s (dirname ?out) else (None, s)) = (None, sm)"
    and sm: "files sm = files s" "ticks sm = ticks s" "stdout sm = stdout s"
    using m by (cases "dirname ?out = []") (simp_all add: makedirs_def)
  define s2 where "s2 = sm\<lparr>ticks := Suc (ticks s), files := (files s)(?out \<mapsto> Complete ?T0)\<rparr>"
  have w1: "write_output h sm ?out q ps = (None, s2)"
    using o t0 sm by (simp add: write_output_eq dump_to_file_ok s2_def)
  define s3 where "s3 = (if startswith ?out (lit ''docs/'')
                         then snd (write_output h s2 ?root q ps) else s2)"
  have tb: "try_body h a q n s =
              (None, s3\<lparr>stdout := stdout s3 @ [wrote_line ?out (length ps)]\<rparr>)"
    using f mk w1 w by (simp add: try_body_def Let_def s3_def print_def)
  have s2f: "files s2 = (files s)(?out \<mapsto> Complete ?T0)" "ticks s2 = Suc (ticks s)"
     "stdout s2 = stdout s"
    using sm by (simp_all add: s2_def)
  obtain r s' where d: "dump_to_file h (s2\<lparr>ticks := Suc (ticks s2)\<rparr>) ?root
                          (result_set q (clock h (ticks s2)) ps) = (r, s')"
    by (cases "dump_to_file h (s2\<lparr>ticks := Suc (ticks s2)\<rparr>) ?root
                          (result_set q (clock h (ticks s2)) ps)") 
  have keep: "stdout s' = stdout s" "\<forall>p'. p' \<noteq> ?root \<longrightarrow> files s' p' = files s2 p'"
    using dump_to_file_keeps [OF d] s2f by simp_all
  have snd_w: "snd (write_output h s2 ?root q ps) = s'"
    using d by (simp add: write_output_eq)
  have c1: "files s3 ?out = Some (Complete ?T0)"
  proof (cases "startswith ?out (lit ''docs/'')")
    case True
    then have "?out \<noteq> ?root" by (rule docs_not_root)
    with keep(2) have "files s' ?out = files s2 ?out" by simp
    with True snd_w s2f show ?thesis by (simp add: s3_def)
  next
    case False
    with s2f show ?thesis by (simp add: s3_def)
  qed
  have c2: "startswith ?out (lit ''docs/'') \<and> open_error h ?root = None \<and>
              write_error h ?root = None \<longrightarrow> files s3 ?root = Some (Complete ?T1)"
  proof (intro impI, elim conjE)
    assume a: "startswith ?out (lit ''docs/'')" "open_error h ?root = None" "write_error h ?root = None"
    from t1 s2f have "\<not> has_surrogate (dumps 0 (result_set q (clock h (ticks s2)) ps))" by simp
    with a(2,3) have "dump_to_file h (s2\<lparr>ticks := Suc (ticks s2)\<rparr>) ?root
                          (result_set q (clock h (ticks s2)) ps) =
       (None, (s2\<lparr>ticks := Suc (ticks s2)\<rparr>)\<lparr>files := (files (s2\<lparr>ticks := Suc (ticks s2)\<rparr>))
           (?root \<mapsto> Complete (dumps 0 (result_set q (clock h (ticks s2)) ps)))\<rparr>)"
      by (rule dump_to_file_ok)
    with d have "files s' ?root = Some (Complete (dumps 0 (result_set q (clock h (ticks s2)) ps)))"
      by auto
    with a(1) snd_w s2f show "files s3 ?root = Some (Complete ?T1)"
      by (simp add: s3_def)
  qed
  have c3: "\<not> startswith ?out (lit ''docs/'') \<longrightarrow> (\<forall>p'. p' \<noteq> ?out \<longrightarrow> files s3 p' = files s p')"
    using s2f by (simp add: s3_def)
  have c4: "\<forall>p'. p' \<noteq> ?out \<and> p' \<noteq> ?root \<longrightarrow> files s3 p' = files s p'"
    using s2f keep(2) snd_w by (simp add: s3_def)
  have c5: "stdout s3 = stdout s"
    using s2f keep(1) snd_w by (simp add: s3_def)
  from tb c1 c2 c3 c4 c5 show ?thesis by blast
qed

lemma str_nat_hd: "\<exists>d ds. str_nat n = d # ds \<and> 48 \<le> d \<and> d \<le> 57"
  using str_nat_digits [of n] str_nat_nonempty [of n] by (cases "str_nat n") auto

lemma str_nat_inj: "str_nat a = str_nat b \<Longrightarrow> a = b"
  by (metis decimal_value_str_nat)

lemma str_int_inj: "str_int i = str_int j \<Longrightarrow> i = j"
proof -
  assume e: "str_int i = str_int j"
  have neg: False if "45 # str_nat a = str_nat b" for a b
    using str_nat_hd [of b] that by auto
  show ?thesis
  proof (cases "i < 0"; cases "j < 0")
    assume "i < 0" "j < 0"
    with e have "nat (- i) = nat (- j)" by (simp add: str_int_def str_nat_inj)
    with \<open>i < 0\<close> \<open>j < 0\<close> show ?thesis by simp
  next
    assume "i < 0" "\<not> j < 0"
    with e neg show ?thesis by (simp add: str_int_def)
  next
    assume "\<not> i < 0" "j < 0"
    with e neg [of "nat (- j)" "nat i"] show ?thesis by (simp add: str_int_def)
  next
    assume "\<not> i < 0" "\<not> j < 0"
    with e have "nat i = nat j" by (simp add: str_int_def str_nat_inj)
    with \<open>\<not> i < 0\<close> \<open>\<not> j < 0\<close> show ?thesis by simp
  qed
qed

lemma result_set_time_inj:
  "dumps 0 (result_set q t ps) = dumps 0 (result_set q t' ps) \<Longrightarrow> t = t'"
  by (simp add: result_set_def str_int_inj)

lemma example_feed_clean: "\<not> el_has_surrogate example_feed"
  by (simp add: example_feed_def is_surrogate_def)

lemma example_fetch:
  assumes "urlopen h = urlopen example_host" "fromstring h = fromstring example_host"
      and "max_str_digits h = 4300"
  shows "fetch h (lit ''all:machine learning'') 20 = Inr (parse_papers example_feed)"
proof -
  obtain url where "build_url 4300 (lit ''all:machine learning'') 20 = Inr url"
    using build_url_ok [of "lit ''all:machine learning''" 4300 20] format_int_20 by auto
  with assms show ?thesis by (simp add: fetch_def example_host_def)
qed

lemma fetch_urlopen_fails:
  assumes "\<And>url ctx. urlopen h url ctx = Inl e" and "\<not> has_surrogate q"
      and "format_int (max_str_digits h) n = Inr c"
  shows "fetch h q n = Inl e"
proof -
  obtain url where "build_url (max_str_digits h) q n = Inr url"
    using build_url_ok [OF assms(2,3)] by auto
  with assms(1) show ?thesis by (simp add: fetch_def)
qed

lemma default_resolution:
  assumes "environ h = Map.empty"
  shows "resolve_query h default_args = lit ''all:machine learning''"
    and "resolve_max_results h default_args = Inr 20"
    and "arg_out default_args = lit ''docs/arxiv_data.json''"
  using assms by (simp_all add: resolve_query_def resolve_max_results_def default_args_def parse_args_def)

lemma dirname_docs: "dirname (lit ''docs/arxiv_data.json'') = lit ''docs''"
  by (simp add: dirname_def lit_def)

lemma empty_command_line:
  assumes "sys_argv h = sys_argv example_host" "argparse h = argparse example_host"
  shows "parse_command_line h None = Inr default_args"
  using assms by (simp add: parse_command_line_def example_host_def default_args_def)

lemma utf8_stream_ok: "\<not> has_surrogate l \<Longrightarrow> utf8_stream_error l = None"
  by (simp add: utf8_stream_error_def)


lemma main_body_fallback:
  assumes "resolve_max_results h a = Inr n"
      and "format_int (max_str_digits h) n = Inr c"
      and "print_error h (fetching_line (resolve_query h a) c) = None"
      and "fetch h (resolve_query h a) n = Inl e"
      and "print_error h (error_line e) = None"
      and "open_error h (arg_out a) = None" and "write_error h (arg_out a) = None"
      and "\<not> has_surrogate (resolve_query h a)" and "\<not> has_surrogate (exc_str e)"
      and "print_error h (fallback_line (arg_out a)) = None"
  shows "main_body h a s =
     Returned \<lparr>files = (files s)(arg_out a \<mapsto> Complete (dumps 0
                  (JDict [(lit ''query'', JStr (resolve_query h a)),
                          (lit ''fetched_at'', JInt (clock h (ticks s))),
                          (lit ''error'', JStr (exc_str e)),
                          (lit ''papers'', JList [])]))),
               created = created s, ticks = Suc (ticks s),
               stdout = stdout s @ [fetching_line (resolve_query h a) c, error_line e,
                                    fallback_line (arg_out a)]\<rparr>"
proof -
  let ?q = "resolve_query h a"
  let ?s1 = "s\<lparr>stdout := stdout s @ [fetching_line ?q c]\<rparr>"
  from assms(4) have "try_body h a ?q n ?s1 = (Some e, ?s1)"
    by (rule try_body_fetch_fails)
  with assms(1-3) have "main_body h a s = handler h a ?q e ?s1"
    by (simp add: main_body_unfold)
  also from assms(5-10) have "\<dots> =
     Returned \<lparr>files = (files ?s1)(arg_out a \<mapsto>
                  Complete (dumps 0 (fallback_result ?q (clock h (ticks ?s1)) (exc_str e)))),
               created = created ?s1, ticks = Suc (ticks ?s1),
               stdout = stdout ?s1 @ [error_line e, fallback_line (arg_out a)]\<rparr>"
    by (rule handler_ok)
  finally show ?thesis by (simp add: fallback_result_def)
qed

lemma offline_run_facts:
  assumes h: "h = offline_host \<or> h = no_docs_host"
  shows "parse_command_line h None = Inr default_args"
    and "resolve_query h default_args = lit ''all:machine learning''"
    and "resolve_max_results h default_args = Inr 20"
    and "arg_out default_args = lit ''docs/arxiv_data.json''"
    and "format_int (max_str_digits h) 20 = Inr (lit ''20'')"
    and "print_error h = utf8_stream_error"
    and "fetch h (lit ''all:machine learning'') 20 =
           Inl (Exn ''URLError'' (lit ''<urlopen error [Errno -3] Temporary failure in name resolution>''))"
proof -
  from h have e: "environ h = Map.empty"
    by (auto simp: no_docs_host_def offline_host_def example_host_def)
  note r = default_resolution [OF e]
  from h show c: "parse_command_line h None = Inr default_args"
    by (intro empty_command_line) (auto simp: no_docs_host_def offline_host_def)
  show "resolve_query h default_args = lit ''all:machine learning''" by (rule r(1))
  show "resolve_max_results h default_args = Inr 20" by (rule r(2))
  show "arg_out default_args = lit ''docs/arxiv_data.json''" by (rule r(3))
  from h have "max_str_digits h = 4300"
    by (auto simp: no_docs_host_def offline_host_def example_host_def)
  then show f: "format_int (max_str_digits h) 20 = Inr (lit ''20'')"
    by (simp add: format_int_20)
  from h show "print_error h = utf8_stream_error"
    by (auto simp: no_docs_host_def offline_host_def example_host_def)
  from h have "\<And>url ctx. urlopen h url ctx =
           Inl (Exn ''URLError'' (lit ''<urlopen error [Errno -3] Temporary failure in name resolution>''))"
    by (auto simp: no_docs_host_def offline_host_def)
  moreover have "\<not> has_surrogate (lit ''all:machine learning'')" by simp
  ultimately show "fetch h (lit ''all:machine learning'') 20 =
           Inl (Exn ''URLError'' (lit ''<urlopen error [Errno -3] Temporary failure in name resolution>''))"
    using f by (rule fetch_urlopen_fails)
qed

text \<open>
  Claim C2. With the network down and no directory \<open>docs\<close>, the run with the default
  destination writes no fallback object: the handler opens the destination without
  creating its directory first (lines 88 to 92 do that, but only after a successful
  fetch), so the \<open>FileNotFoundError\<close> of \<open>open\<close> leaves \<open>main\<close>, after the two lines
  printed, and there is no file afterwards. With a destination that can be written the
  handler does write the object the claim describes (lemma \<open>main_body_fallback\<close>).
\<close>

theorem fallback_without_directory:
  "main no_docs_host None initial =
     Raised (Exn ''FileNotFoundError'' (lit ''[Errno 2] No such file or directory: '' @ [39]
                                       @ lit ''docs/arxiv_data.json'' @ [39]))
       \<lparr>files = Map.empty, created = [], ticks = 1,
        stdout = [fetching_line (lit ''all:machine learning'') (lit ''20''),
                  error_line (Exn ''URLError'' (lit ''<urlopen error [Errno -3] Temporary failure in name resolution>''))]\<rparr>"
proof -
  let ?E = "Exn ''URLError'' (lit ''<urlopen error [Errno -3] Temporary failure in name resolution>'')"
  let ?q = "lit ''all:machine learning''"
  let ?s1 = "initial\<lparr>stdout := stdout initial @ [fetching_line ?q (lit ''20'')]\<rparr>"
  have "no_docs_host = offline_host \<or> no_docs_host = no_docs_host" by simp
  note r = offline_run_facts [OF this]
  have p1: "print_error no_docs_host (fetching_line ?q (lit ''20'')) = None"
    unfolding r(6) by (rule utf8_stream_ok) (simp add: fetching_line_def)
  have p2: "print_error no_docs_host (error_line ?E) = None"
    unfolding r(6) by (rule utf8_stream_ok) (simp add: error_line_def)
  have o: "open_error no_docs_host (arg_out default_args) =
             Some (Exn ''FileNotFoundError'' (lit ''[Errno 2] No such file or directory: '' @ [39]
                                       @ lit ''docs/arxiv_data.json'' @ [39]))"
    by (simp add: r(4) no_docs_host_def)
  have t: "try_body no_docs_host default_args ?q 20 ?s1 = (Some ?E, ?s1)"
    using r(7) by (rule try_body_fetch_fails)
  have "main no_docs_host None initial = main_body no_docs_host default_args initial"
    using r(1) by (rule main_unfold)
  also have "\<dots> = handler no_docs_host default_args ?q ?E ?s1"
    using t p1 by (simp add: main_body_unfold [OF r(3) r(5)] r(2))
  finally show ?thesis
    by (simp add: handler_open_fails [OF p2 o] initial_def)
qed

lemma main_success:
  assumes c: "parse_command_line h argv = Inr a"
      and m: "resolve_max_results h a = Inr n"
      and t: "format_int (max_str_digits h) n = Inr cnt"
      and l: "print_error h (fetching_line (resolve_query h a) cnt) = None"
      and f: "fetch h (resolve_query h a) n = Inr ps"
      and d: "dirname (arg_out a) \<noteq> [] \<Longrightarrow> makedirs_error h (dirname (arg_out a)) = None"
      and o: "open_error h (arg_out a) = None" "write_error h (arg_out a) = None"
      and p: "\<forall>p\<in>set ps. \<not> paper_has_surrogate p"
      and w: "print_error h (wrote_line (arg_out a) (length ps)) = None"
  shows "\<exists>s'. main h argv s = Returned s' \<and>
           files s' (arg_out a) =
             Some (Complete (dumps 0 (result_set (resolve_query h a) (clock h (ticks s)) ps))) \<and>
           (startswith (arg_out a) (lit ''docs/'') \<and> open_error h (lit ''arxiv_data.json'') = None \<and>
              write_error h (lit ''arxiv_data.json'') = None \<longrightarrow>
              files s' (lit ''arxiv_data.json'') =
                Some (Complete (dumps 0 (result_set (resolve_query h a) (clock h (Suc (ticks s))) ps)))) \<and>
           (\<not> startswith (arg_out a) (lit ''docs/'') \<longrightarrow>
              (\<forall>p'. p' \<noteq> arg_out a \<longrightarrow> files s' p' = files s p')) \<and>
           stdout s' = stdout s @ [fetching_line (resolve_query h a) cnt,
                                  wrote_line (arg_out a) (length ps)]"
proof -
  let ?s1 = "s\<lparr>stdout := stdout s @ [fetching_line (resolve_query h a) cnt]\<rparr>"
  from try_body_success [OF f d o p w, of ?s1]
  obtain s3 where tb: "try_body h a (resolve_query h a) n ?s1 =
                         (None, s3\<lparr>stdout := stdout s3 @ [wrote_line (arg_out a) (length ps)]\<rparr>)"
    and c3: "files s3 (arg_out a) =
              Some (Complete (dumps 0 (result_set (resolve_query h a) (clock h (ticks ?s1)) ps)))"
       "startswith (arg_out a) (lit ''docs/'') \<and> open_error h (lit ''arxiv_data.json'') = None \<and>
              write_error h (lit ''arxiv_data.json'') = None \<longrightarrow>
              files s3 (lit ''arxiv_data.json'') =
                Some (Complete (dumps 0 (result_set (resolve_query h a) (clock h (Suc (ticks ?s1))) ps)))"
       "\<not> startswith (arg_out a) (lit ''docs/'') \<longrightarrow>
              (\<forall>p'. p' \<noteq> arg_out a \<longrightarrow> files s3 p' = files ?s1 p')"
       "stdout s3 = stdout ?s1"
    by blast
  from tb m t l have "main_body h a s =
                        Returned (s3\<lparr>stdout := stdout s3 @ [wrote_line (arg_out a) (length ps)]\<rparr>)"
    by (simp add: main_body_unfold)
  with c have "main h argv s =
                 Returned (s3\<lparr>stdout := stdout s3 @ [wrote_line (arg_out a) (length ps)]\<rparr>)"
    by (simp add: main_unfold)
  with c3 show ?thesis by simp
qed

lemma example_run_facts:
  assumes h: "sys_argv h = sys_argv example_host" "argparse h = argparse example_host"
     "environ h = Map.empty" "max_str_digits h = 4300" "urlopen h = urlopen example_host"
     "fromstring h = fromstring example_host" "makedirs_error h = Map.empty"
     "open_error h = Map.empty" "write_error h = Map.empty" "print_error h = utf8_stream_error"
  shows "parse_command_line h None = Inr default_args"
    and "resolve_max_results h default_args = Inr 20"
    and "format_int (max_str_digits h) 20 = Inr (lit ''20'')"
    and "print_error h (fetching_line (resolve_query h default_args) (lit ''20'')) = None"
    and "fetch h (resolve_query h default_args) 20 = Inr (parse_papers example_feed)"
    and "dirname (arg_out default_args) \<noteq> [] \<Longrightarrow>
           makedirs_error h (dirname (arg_out default_args)) = None"
    and "open_error h (arg_out default_args) = None"
    and "write_error h (arg_out default_args) = None"
    and "\<forall>p\<in>set (parse_papers example_feed). \<not> paper_has_surrogate p"
    and "print_error h (wrote_line (arg_out default_args) (length (parse_papers example_feed))) = None"
    and "open_error h (lit ''arxiv_data.json'') = None"
    and "write_error h (lit ''arxiv_data.json'') = None"
proof -
  note r = default_resolution [OF h(3)]
  show "parse_command_line h None = Inr default_args"
    using h(1,2) by (rule empty_command_line)
  show "resolve_max_results h default_args = Inr 20" by (rule r(2))
  show "format_int (max_str_digits h) 20 = Inr (lit ''20'')"
    by (simp add: h(4) format_int_20)
  show "print_error h (fetching_line (resolve_query h default_args) (lit ''20'')) = None"
    unfolding h(10) r(1) by (rule utf8_stream_ok) (simp add: fetching_line_def)
  show "fetch h (resolve_query h default_args) 20 = Inr (parse_papers example_feed)"
    unfolding r(1) using h(5,6,4) by (rule example_fetch)
  show "\<forall>p\<in>set (parse_papers example_feed). \<not> paper_has_surrogate p"
    by (rule parse_papers_clean) (rule example_feed_clean)
  show "print_error h (wrote_line (arg_out default_args) (length (parse_papers example_feed))) = None"
    unfolding h(10) r(3) by (rule utf8_stream_ok) (simp add: wrote_line_def)
qed (simp_all add: h)




text \<open>
  Claim C3. In a run that succeeds with the default destination, on a host whose clock
  advances by a second from one reading to the next, \<open>main\<close> returns and both files are
  written, but the file at \<open>arxiv_data.json\<close> is no copy of the primary file: it is
  made by a second call of \<open>write_output\<close>, which reads the clock anew (line 66), so
  the two files differ in \<open>fetched_at\<close>.
\<close>

theorem secondary_copy_differs:
  "returned (main example_host None initial) \<and>
   files (final_state (main example_host None initial)) (lit ''docs/arxiv_data.json'') =
     Some (Complete (dumps 0 (result_set (lit ''all:machine learning'') 1700000000
                               (parse_papers example_feed)))) \<and>
   files (final_state (main example_host None initial)) (lit ''arxiv_data.json'') =
     Some (Complete (dumps 0 (result_set (lit ''all:machine learning'') 1700000001
                               (parse_papers example_feed)))) \<and>
   files (final_state (main example_host None initial)) (lit ''arxiv_data.json'') \<noteq>
   files (final_state (main example_host None initial)) (lit ''docs/arxiv_data.json'')"
proof -
  have h: "sys_argv example_host = sys_argv example_host" "argparse example_host = argparse example_host"
     "environ example_host = Map.empty" "max_str_digits example_host = 4300"
     "urlopen example_host = urlopen example_host"
     "fromstring example_host = fromstring example_host" "makedirs_error example_host = Map.empty"
     "open_error example_host = Map.empty" "write_error example_host = Map.empty"
     "print_error example_host = utf8_stream_error"
    by (simp_all add: example_host_def)
  note f = example_run_facts [OF h]
  note r = default_resolution [OF h(3)]
  have d: "startswith (arg_out default_args) (lit ''docs/'')"
    by (simp add: r startswith_def lit_def)
  have k: "clock example_host 0 = 1700000000" "clock example_host (Suc 0) = 1700000001"
    by (simp_all add: example_host_def)
  let ?q = "lit ''all:machine learning''" and ?ps = "parse_papers example_feed"
  from main_success [OF f(1-10), of initial] f(11,12) d obtain s' where
    m: "main example_host None initial = Returned s'"
    and a: "files s' (lit ''docs/arxiv_data.json'') =
              Some (Complete (dumps 0 (result_set ?q 1700000000 ?ps)))"
    and b: "files s' (lit ''arxiv_data.json'') =
              Some (Complete (dumps 0 (result_set ?q 1700000001 ?ps)))"
    by (auto simp: r k initial_def)
  have "(1700000001::int) \<noteq> 1700000000" by simp
  then have "dumps 0 (result_set ?q 1700000001 ?ps) \<noteq> dumps 0 (result_set ?q 1700000000 ?ps)"
    using result_set_time_inj by blast
  with m a b show ?thesis by simp
qed

section \<open>The round trip\<close>

lemma dropWhile_replicate_ws: "dropWhile is_ws (replicate k 32 @ s) = dropWhile is_ws s"
  by (induction k) (simp_all add: is_ws_def)

lemma skip_ws_newline_indent [simp]: "skip_ws (newline_indent l @ s) = skip_ws s"
  by (simp add: skip_ws_def newline_indent_def dropWhile_replicate_ws) (simp add: is_ws_def)














lemma ends_value_newline [simp]: "ends_value (newline_indent l @ X)"
  by (simp add: ends_value_def newline_indent_def is_digit_def)

lemma ends_value_comma [simp]: "ends_value (44 # X)"
  by (simp add: ends_value_def is_digit_def)

lemma skip_ws_simps [simp]:
  "skip_ws (44 # X) = 44 # X" "skip_ws (93 # X) = 93 # X" "skip_ws (125 # X) = 125 # X"
  "skip_ws (58 # X) = 58 # X" "skip_ws (34 # X) = 34 # X" "skip_ws (32 # X) = skip_ws X"
  by (simp_all add: skip_ws_def is_ws_def)















end
